theory Spec2Isabelle
  imports Complex_Main
begin

section \<open>Data model of the billiard server (server.js)\<close>

text \<open>
  The server keeps four module-level variables (\<open>players\<close>, \<open>scoreBalls\<close>,
  \<open>blackBall\<close>, \<open>gameActive\<close>) and one Matter.js world. Bodies are JavaScript objects
  that are shared between the world, the \<open>scoreBalls\<close> array, the \<open>blackBall\<close>
  variable, the player records and the contact pairs of a physics step, and the
  handlers mutate them in place. The model therefore has an explicit store from
  object addresses to bodies; every other place holds addresses.

  JavaScript numbers are modelled by \<open>real\<close> (positions, forces, the ball count of a
  request) and by \<open>int\<close> where the program only ever produces integers (scores,
  millisecond timestamps); rounding of doubles is not modelled. \<open>null\<close> and
  \<open>undefined\<close> are both \<open>None\<close>. \<open>Math.random()\<close> is a stream \<open>R\<close> of numbers, the state
  counts how many were drawn. Calls of \<open>console.log\<close> are left out; physical material
  constants (restitution, friction, density) play no role in the handlers and are
  left out of the body record.
\<close>

type_synonym socket_id = string
type_synonym body_id = nat
type_synonym vec = "real \<times> real"
type_synonym rng = "nat \<Rightarrow> real"

datatype label = Wall | Hole | ScoreBall | BlackBall | PlayerBall

text \<open>\<open>render.fillStyle\<close>: the three literal colours of the source, the template
  \<open>hsl(hue, 70%, 50%)\<close>, and the library default of walls and holes.\<close>

datatype colour = White | Red | Black | Hsl int | DefaultFill

record rigid_body =
  label :: label
  position :: vec
  velocity :: vec
  force :: vec
  torque :: real
  circleRadius :: "real option"
  fillStyle :: colour
  playerId :: "socket_id option"
  lastTouchedBy :: "socket_id option"

record player =
  body :: body_id
  score :: int
  cooldown :: int
  name :: string
  color :: colour

record gstate =
  bodies :: "body_id \<Rightarrow> rigid_body"
  nextId :: body_id
  world :: "body_id list"
  players :: "socket_id \<rightharpoonup> player"
  scoreBalls :: "body_id list"
  blackBall :: "body_id option"
  gameActive :: bool
  draws :: nat

datatype error = TypeError

datatype message =
    GameStarted real
  | Joined socket_id colour
  | Init socket_id
  | CooldownNotify int

datatype emit = Broadcast message | ToSocket socket_id message

record start_data =
  ballCount :: "real option"

record shoot_data =
  force_field :: "real option"
  angle_field :: "real option"

abbreviation TABLE_WIDTH :: real where "TABLE_WIDTH \<equiv> 1600"
abbreviation TABLE_HEIGHT :: real where "TABLE_HEIGHT \<equiv> 900"
abbreviation WALL_THICKNESS :: real where "WALL_THICKNESS \<equiv> 100"
abbreviation BALL_RADIUS :: real where "BALL_RADIUS \<equiv> 20"
abbreviation PLAYER_BALL_RADIUS :: real where "PLAYER_BALL_RADIUS \<equiv> 28"
abbreviation BLACK_BALL_RADIUS :: real where "BLACK_BALL_RADIUS \<equiv> 22"
abbreviation COOLDOWN_TIME :: int where "COOLDOWN_TIME \<equiv> 750"
abbreviation holeRadius :: real where "holeRadius \<equiv> 45"

section \<open>JavaScript and Matter.js primitives\<close>

text \<open>\<open>v || d\<close> on an optional number: the default is taken when the field is
  missing and when it is the falsy number 0.\<close>

definition js_or :: "real option \<Rightarrow> real \<Rightarrow> real" where
  "js_or v d = (case v of None \<Rightarrow> d | Some x \<Rightarrow> if x = 0 then d else x)"

text \<open>Truthiness of an id that is a string or null: null and the empty string are
  falsy.\<close>

definition truthy :: "socket_id option \<Rightarrow> bool" where
  "truthy v = (case v of None \<Rightarrow> False | Some k \<Rightarrow> k \<noteq> [])"

text \<open>The property key that \<open>players[v]\<close> reads: an undefined \<open>v\<close> is converted to the
  string \<open>undefined\<close>.\<close>

definition js_key :: "socket_id option \<Rightarrow> socket_id" where
  "js_key v = (case v of None \<Rightarrow> ''undefined'' | Some k \<Rightarrow> k)"

definition random :: "rng \<Rightarrow> gstate \<Rightarrow> real \<times> gstate" where
  "random R s = (R (draws s), s\<lparr>draws := Suc (draws s)\<rparr>)"

text \<open>A new body object: \<open>Bodies.circle\<close> and \<open>Bodies.rectangle\<close> return an object
  nothing else refers to.\<close>

definition new_body :: "rigid_body \<Rightarrow> gstate \<Rightarrow> body_id \<times> gstate" where
  "new_body b s =
     (nextId s, s\<lparr>bodies := (bodies s)(nextId s := b), nextId := Suc (nextId s)\<rparr>)"

definition update_body :: "body_id \<Rightarrow> (rigid_body \<Rightarrow> rigid_body) \<Rightarrow> gstate \<Rightarrow> gstate" where
  "update_body i f s = s\<lparr>bodies := (bodies s)(i := f (bodies s i))\<rparr>"

definition World_add :: "body_id \<Rightarrow> gstate \<Rightarrow> gstate" where
  "World_add i s = s\<lparr>world := world s @ [i]\<rparr>"

text \<open>\<open>World.remove\<close> deletes the body at its first index in the composite, if any.\<close>

definition World_remove :: "body_id \<Rightarrow> gstate \<Rightarrow> gstate" where
  "World_remove i s = s\<lparr>world := remove1 i (world s)\<rparr>"

definition Body_setPosition :: "body_id \<Rightarrow> vec \<Rightarrow> gstate \<Rightarrow> gstate" where
  "Body_setPosition i p s = update_body i (\<lambda>b. b\<lparr>position := p\<rparr>) s"

definition Body_setVelocity :: "body_id \<Rightarrow> vec \<Rightarrow> gstate \<Rightarrow> gstate" where
  "Body_setVelocity i v s = update_body i (\<lambda>b. b\<lparr>velocity := v\<rparr>) s"

text \<open>\<open>Body.applyForce(body, point, f)\<close> adds \<open>f\<close> to the body's force accumulator
  and the moment of \<open>f\<close> about the centre to its torque.\<close>

definition Body_applyForce :: "body_id \<Rightarrow> vec \<Rightarrow> vec \<Rightarrow> gstate \<Rightarrow> gstate" where
  "Body_applyForce i pt f s =
     update_body i (\<lambda>b. b\<lparr>
        force := (fst (force b) + fst f, snd (force b) + snd f),
        torque := torque b + ((fst pt - fst (position b)) * snd f
                             - (snd pt - snd (position b)) * fst f)\<rparr>) s"

definition circle :: "real \<Rightarrow> real \<Rightarrow> real \<Rightarrow> label \<Rightarrow> colour \<Rightarrow> rigid_body" where
  "circle cx cy r l c =
     \<lparr>label = l, position = (cx, cy), velocity = (0, 0), force = (0, 0), torque = 0,
      circleRadius = Some r, fillStyle = c, playerId = None, lastTouchedBy = None\<rparr>"

definition rectangle :: "real \<Rightarrow> real \<Rightarrow> label \<Rightarrow> rigid_body" where
  "rectangle cx cy l =
     \<lparr>label = l, position = (cx, cy), velocity = (0, 0), force = (0, 0), torque = 0,
      circleRadius = None, fillStyle = DefaultFill, playerId = None, lastTouchedBy = None\<rparr>"

section \<open>World setup and game state\<close>

definition walls :: "rigid_body list" where
  "walls =
     [rectangle (TABLE_WIDTH / 2) (- WALL_THICKNESS / 2) Wall,
      rectangle (TABLE_WIDTH / 2) (TABLE_HEIGHT + WALL_THICKNESS / 2) Wall,
      rectangle (- WALL_THICKNESS / 2) (TABLE_HEIGHT / 2) Wall,
      rectangle (TABLE_WIDTH + WALL_THICKNESS / 2) (TABLE_HEIGHT / 2) Wall]"

definition holePositions :: "vec list" where
  "holePositions =
     [(0, 0), (TABLE_WIDTH / 2, 0), (TABLE_WIDTH, 0),
      (0, TABLE_HEIGHT), (TABLE_WIDTH / 2, TABLE_HEIGHT), (TABLE_WIDTH, TABLE_HEIGHT)]"

definition holes :: "rigid_body list" where
  "holes = map (\<lambda>pos. circle (fst pos) (snd pos) holeRadius Hole DefaultFill) holePositions"

text \<open>The state before any statement of the module has run.\<close>

definition empty_state :: gstate where
  "empty_state =
     \<lparr>bodies = (\<lambda>_. rectangle 0 0 Wall), nextId = 0, world = [], players = Map.empty,
      scoreBalls = [], blackBall = None, gameActive = False, draws = 0\<rparr>"

fun add_statics :: "rigid_body list \<Rightarrow> gstate \<Rightarrow> gstate" where
  "add_statics [] s = s"
| "add_statics (b # bs) s =
     (let (i, s1) = new_body b s in add_statics bs (World_add i s1))"

text \<open>Lines 42 to 73: walls and holes are in the world, the four variables hold
  their initial values.\<close>

definition setup_state :: gstate where
  "setup_state = add_statics holes (add_statics walls empty_state)"

definition createScoreBall :: "rng \<Rightarrow> gstate \<Rightarrow> body_id \<times> gstate" where
  "createScoreBall R s =
     (let (rx, s1) = random R s;
          x = rx * (TABLE_WIDTH - 200) + 100;
          (ry, s2) = random R s1;
          y = ry * (TABLE_HEIGHT - 200) + 100;
          (rc, s3) = random R s2
      in new_body (circle x y BALL_RADIUS ScoreBall (if rc > 0.5 then White else Red)
                     \<lparr>lastTouchedBy := None\<rparr>) s3)"

definition createBlackBall :: "gstate \<Rightarrow> body_id \<times> gstate" where
  "createBlackBall s =
     new_body (circle (TABLE_WIDTH / 2) (TABLE_HEIGHT / 2) BLACK_BALL_RADIUS BlackBall Black
                 \<lparr>lastTouchedBy := None\<rparr>) s"

text \<open>The loop \<open>for (let i = 0; i < ballCount; i++)\<close> of \<open>startGame\<close>.\<close>

function createBalls :: "rng \<Rightarrow> real \<Rightarrow> nat \<Rightarrow> gstate \<Rightarrow> gstate" where
  "createBalls R n i s =
     (if real i < n then
        (let (ball, s1) = createScoreBall R s;
             s2 = s1\<lparr>scoreBalls := scoreBalls s1 @ [ball]\<rparr>
         in createBalls R n (Suc i) (World_add ball s2))
      else s)"
  by pat_completeness auto
termination
proof (relation "measure (\<lambda>(R, n, i, s). nat \<lceil>n\<rceil> - i)")
  show "wf (measure (\<lambda>(R, n, i, s). nat \<lceil>n :: real\<rceil> - i))"
    by simp
next
  fix R :: rng and n :: real and i :: nat and s x xa y xb
  assume "real i < n"
  then have "i < nat \<lceil>n\<rceil>"
    by linarith
  then show "((R, n, Suc i, World_add xa xb), (R, n, i, s))
      \<in> measure (\<lambda>(R, n, i, s). nat \<lceil>n\<rceil> - i)"
    by simp
qed

declare createBalls.simps [simp del]

definition startGame :: "rng \<Rightarrow> real \<Rightarrow> gstate \<Rightarrow> gstate" where
  "startGame R n s =
     (let s1 = fold World_remove (scoreBalls s) s;
          s2 = (case blackBall s1 of None \<Rightarrow> s1 | Some bb \<Rightarrow> World_remove bb s1);
          s3 = s2\<lparr>scoreBalls := []\<rparr>;
          s4 = createBalls R n 0 s3;
          (bb, s5) = createBlackBall s4;
          s6 = World_add bb (s5\<lparr>blackBall := Some bb\<rparr>);
          s7 = s6\<lparr>players := (\<lambda>id. map_option (\<lambda>p. p\<lparr>score := 0\<rparr>) (players s6 id))\<rparr>
      in s7\<lparr>gameActive := True\<rparr>)"

text \<open>Line 130: the module starts a game with 15 balls while it is loaded.\<close>

definition initial_state :: "rng \<Rightarrow> gstate" where
  "initial_state R = startGame R 15 setup_state"

definition set_lastTouchedBy :: "body_id \<Rightarrow> socket_id option \<Rightarrow> gstate \<Rightarrow> gstate" where
  "set_lastTouchedBy i v s = update_body i (\<lambda>b. b\<lparr>lastTouchedBy := v\<rparr>) s"

definition respawnScoreBall :: "rng \<Rightarrow> body_id \<Rightarrow> gstate \<Rightarrow> gstate" where
  "respawnScoreBall R ball s =
     (let (rx, s1) = random R s;
          (ry, s2) = random R s1;
          s3 = Body_setPosition ball
                 (rx * (TABLE_WIDTH - 200) + 100, ry * (TABLE_HEIGHT - 200) + 100) s2;
          s4 = Body_setVelocity ball (0, 0) s3
      in set_lastTouchedBy ball None s4)"

text \<open>\<open>respawnBlackBall\<close> takes no argument: it moves the body the variable
  \<open>blackBall\<close> refers to, and reading a property of null throws.\<close>

definition respawnBlackBall :: "gstate \<Rightarrow> error + gstate" where
  "respawnBlackBall s =
     (case blackBall s of
        None \<Rightarrow> Inl TypeError
      | Some bb \<Rightarrow>
          (let s1 = Body_setPosition bb (TABLE_WIDTH / 2, TABLE_HEIGHT / 2) s;
               s2 = Body_setVelocity bb (0, 0) s1
           in Inr (set_lastTouchedBy bb None s2)))"

definition respawnPlayer :: "rng \<Rightarrow> body_id \<Rightarrow> gstate \<Rightarrow> gstate" where
  "respawnPlayer R playerBody s =
     (let (rx, s1) = random R s;
          (ry, s2) = random R s1;
          s3 = Body_setPosition playerBody
                 (rx * (TABLE_WIDTH - 200) + 100, ry * (TABLE_HEIGHT - 200) + 100) s2;
          s4 = Body_setVelocity playerBody (0, 0) s3
      in set_lastTouchedBy playerBody None s4)"

section \<open>Collision logic\<close>

definition add_score :: "socket_id \<Rightarrow> int \<Rightarrow> gstate \<Rightarrow> gstate" where
  "add_score k d s =
     (case players s k of
        None \<Rightarrow> s
      | Some p \<Rightarrow> s\<lparr>players := (players s)(k \<mapsto> p\<lparr>score := score p + d\<rparr>)\<rparr>)"

definition set_score :: "socket_id \<Rightarrow> int \<Rightarrow> gstate \<Rightarrow> gstate" where
  "set_score k v s =
     (case players s k of
        None \<Rightarrow> s
      | Some p \<Rightarrow> s\<lparr>players := (players s)(k \<mapsto> p\<lparr>score := v\<rparr>)\<rparr>)"

definition handleHoleCollision :: "rng \<Rightarrow> body_id \<Rightarrow> gstate \<Rightarrow> error + gstate" where
  "handleHoleCollision R ball s =
     (let b = bodies s ball in
      if label b = ScoreBall then
        (let s1 = (if truthy (lastTouchedBy b) \<and> players s (js_key (lastTouchedBy b)) \<noteq> None
                   then add_score (js_key (lastTouchedBy b)) 1 s else s)
         in Inr (respawnScoreBall R ball s1))
      else if label b = PlayerBall then
        (let victimId = js_key (playerId b) in
         if players s victimId \<noteq> None then
           (let s1 = add_score victimId (- 5) s;
                killerId = lastTouchedBy b;
                s2 = (if truthy killerId \<and> killerId \<noteq> playerId b
                         \<and> players s1 (js_key killerId) \<noteq> None
                      then add_score (js_key killerId) 10 s1 else s1)
            in Inr (respawnPlayer R ball s2))
         else Inr s)
      else if label b = BlackBall then
        (let s1 = (if truthy (lastTouchedBy b) \<and> players s (js_key (lastTouchedBy b)) \<noteq> None
                   then set_score (js_key (lastTouchedBy b)) 0 s else s)
         in respawnBlackBall s1)
      else Inr s)"

text \<open>One iteration of the loop of the \<open>collisionStart\<close> listener, for the pair
  \<open>(bodyA, bodyB)\<close>.\<close>

definition handlePair :: "rng \<Rightarrow> body_id \<times> body_id \<Rightarrow> gstate \<Rightarrow> error + gstate" where
  "handlePair R pr s =
     (let bodyA = fst pr; bodyB = snd pr in
      if label (bodies s bodyA) = Hole then handleHoleCollision R bodyB s
      else if label (bodies s bodyB) = Hole then handleHoleCollision R bodyA s
      else if label (bodies s bodyA) = PlayerBall then
        (if label (bodies s bodyB) \<noteq> Wall \<and> label (bodies s bodyB) \<noteq> Hole
         then Inr (set_lastTouchedBy bodyB (playerId (bodies s bodyA)) s) else Inr s)
      else if label (bodies s bodyB) = PlayerBall then
        (if label (bodies s bodyA) \<noteq> Wall \<and> label (bodies s bodyA) \<noteq> Hole
         then Inr (set_lastTouchedBy bodyA (playerId (bodies s bodyB)) s) else Inr s)
      else Inr s)"

fun collisionStart :: "rng \<Rightarrow> (body_id \<times> body_id) list \<Rightarrow> gstate \<Rightarrow> error + gstate" where
  "collisionStart R [] s = Inr s"
| "collisionStart R (pr # prs) s =
     (case handlePair R pr s of
        Inl e \<Rightarrow> Inl e
      | Inr s1 \<Rightarrow> collisionStart R prs s1)"

section \<open>Socket handlers\<close>

text \<open>A handler runs for the socket \<open>sid\<close>. A payload is \<open>None\<close> when the client sent
  none: reading a field of it then throws. The handlers return the new state and
  the messages they emit, in order.\<close>

definition startGame_handler ::
  "rng \<Rightarrow> start_data option \<Rightarrow> gstate \<Rightarrow> error + gstate \<times> emit list" where
  "startGame_handler R data s =
     (case data of
        None \<Rightarrow> Inl TypeError
      | Some d \<Rightarrow>
          (let n = min (max (js_or (ballCount d) 15) 5) 50
           in Inr (startGame R n s, [Broadcast (GameStarted n)])))"

text \<open>The body that \<open>joinGame\<close> and \<open>autoJoin\<close> both contain: colour, ball, world,
  player record.\<close>

definition create_player :: "rng \<Rightarrow> socket_id \<Rightarrow> gstate \<Rightarrow> colour \<times> gstate" where
  "create_player R sid s =
     (let (rh, s1) = random R s;
          col = Hsl \<lfloor>rh * 360\<rfloor>;
          (rx, s2) = random R s1;
          (ry, s3) = random R s2;
          (playerBall, s4) =
             new_body (circle (rx * (TABLE_WIDTH - 200) + 100) (ry * (TABLE_HEIGHT - 200) + 100)
                         PLAYER_BALL_RADIUS PlayerBall DefaultFill) s3;
          s5 = update_body playerBall (\<lambda>b. b\<lparr>playerId := Some sid\<rparr>) s4;
          s6 = set_lastTouchedBy playerBall None s5;
          s7 = update_body playerBall (\<lambda>b. b\<lparr>fillStyle := col\<rparr>) s6;
          s8 = World_add playerBall s7
      in (col, s8\<lparr>players := (players s8)(sid \<mapsto>
                 \<lparr>body = playerBall, score = 0, cooldown = 0,
                  name = ''P-'' @ take 4 sid, color = col\<rparr>)\<rparr>))"

definition joinGame :: "rng \<Rightarrow> socket_id \<Rightarrow> gstate \<Rightarrow> gstate \<times> emit list" where
  "joinGame R sid s =
     (if players s sid \<noteq> None then (s, [])
      else (let (col, s1) = create_player R sid s
            in (s1, [ToSocket sid (Joined sid col)])))"

definition autoJoin :: "rng \<Rightarrow> socket_id \<Rightarrow> gstate \<Rightarrow> gstate \<times> emit list" where
  "autoJoin R sid s =
     (if players s sid = None
      then (snd (create_player R sid s), [ToSocket sid (Init sid)])
      else (s, [ToSocket sid (Init sid)]))"

definition shoot ::
  "socket_id \<Rightarrow> shoot_data option \<Rightarrow> int \<Rightarrow> gstate \<Rightarrow> error + gstate \<times> emit list" where
  "shoot sid data now s =
     (case players s sid of
        None \<Rightarrow> Inr (s, [])
      | Some player \<Rightarrow>
          if now \<ge> cooldown player then
            (case data of
               None \<Rightarrow> Inl TypeError
             | Some d \<Rightarrow>
                 (let forceMag = js_or (force_field d) 0 * 0.3;
                      angle = js_or (angle_field d) 0;
                      f = (cos angle * forceMag, sin angle * forceMag);
                      s1 = Body_applyForce (body player) (position (bodies s (body player))) f s;
                      s2 = s1\<lparr>players := (players s1)(sid \<mapsto>
                              player\<lparr>cooldown := now + COOLDOWN_TIME\<rparr>)\<rparr>
                  in Inr (s2, [ToSocket sid (CooldownNotify COOLDOWN_TIME)])))
          else Inr (s, []))"

definition disconnect :: "socket_id \<Rightarrow> gstate \<Rightarrow> gstate \<times> emit list" where
  "disconnect sid s =
     (case players s sid of
        None \<Rightarrow> (s, [])
      | Some player \<Rightarrow>
          (let s1 = World_remove (body player) s
           in (s1\<lparr>players := (players s1)(sid := None)\<rparr>, [])))"

section \<open>Vocabulary of the properties\<close>

text \<open>\<open>Math.random()\<close> returns a number in the half-open unit interval.\<close>

definition unit_rng :: "rng \<Rightarrow> bool" where
  "unit_rng R \<longleftrightarrow> (\<forall>k. 0 \<le> R k \<and> R k < 1)"

text \<open>The inset rectangle: 100 units away from each wall.\<close>

definition inset :: "vec \<Rightarrow> bool" where
  "inset p \<longleftrightarrow> 100 \<le> fst p \<and> fst p \<le> 1500 \<and> 100 \<le> snd p \<and> snd p \<le> 800"

text \<open>The bodies of the world that carry a given label, and the PlayerBalls of the
  world that belong to a given socket.\<close>

definition labelled :: "label \<Rightarrow> gstate \<Rightarrow> body_id list" where
  "labelled l s = filter (\<lambda>i. label (bodies s i) = l) (world s)"

definition playerBalls_of :: "socket_id \<Rightarrow> gstate \<Rightarrow> body_id list" where
  "playerBalls_of sid s =
     filter (\<lambda>i. label (bodies s i) = PlayerBall \<and> playerId (bodies s i) = Some sid) (world s)"

text \<open>The number of iterations the loop of \<open>startGame\<close> has left at counter \<open>i\<close>, and
  what one iteration does to the state.\<close>

definition ball_count :: "real \<Rightarrow> nat \<Rightarrow> nat" where
  "ball_count n i = nat \<lceil>n\<rceil> - i"

definition ball_step :: "rng \<Rightarrow> gstate \<Rightarrow> gstate" where
  "ball_step R s =
     World_add (nextId s) ((snd (createScoreBall R s))\<lparr>scoreBalls := scoreBalls s @ [nextId s]\<rparr>)"

text \<open>The first three statements of \<open>startGame\<close>.\<close>

definition clear_balls :: "gstate \<Rightarrow> gstate" where
  "clear_balls s =
     (let s1 = fold World_remove (scoreBalls s) s;
          s2 = (case blackBall s1 of None \<Rightarrow> s1 | Some bb \<Rightarrow> World_remove bb s1)
      in s2\<lparr>scoreBalls := []\<rparr>)"

text \<open>
  The states the server can be in. Socket ids are non-empty strings. The world holds
  every body once; the addresses in use are below \<open>nextId\<close>. A PlayerBall of the world
  belongs to a connected player whose record refers to it, and every player record
  refers to its own PlayerBall in the world. The ScoreBalls of the world are the
  entries of \<open>scoreBalls\<close>, the only BlackBall of the world is the one \<open>blackBall\<close>
  refers to, and an active game has a black ball.
\<close>

definition state_ok :: "gstate \<Rightarrow> bool" where
  "state_ok s \<longleftrightarrow>
     distinct (world s) \<and> distinct (scoreBalls s) \<and>
     (\<forall>i\<in>set (world s). i < nextId s) \<and>
     [] \<notin> dom (players s) \<and>
     (\<forall>i\<in>set (world s). label (bodies s i) = PlayerBall \<longrightarrow>
        (\<exists>k p. playerId (bodies s i) = Some k \<and> players s k = Some p \<and> body p = i)) \<and>
     (\<forall>k p. players s k = Some p \<longrightarrow>
        body p \<in> set (world s) \<and> label (bodies s (body p)) = PlayerBall
        \<and> playerId (bodies s (body p)) = Some k) \<and>
     (\<forall>i\<in>set (world s). (label (bodies s i) = ScoreBall) = (i \<in> set (scoreBalls s))) \<and>
     set (scoreBalls s) \<subseteq> set (world s) \<and>
     (\<forall>i\<in>set (world s). (label (bodies s i) = BlackBall) = (blackBall s = Some i)) \<and>
     (\<forall>i. blackBall s = Some i \<longrightarrow> i \<in> set (world s)) \<and>
     (gameActive s \<longrightarrow> blackBall s \<noteq> None)"

text \<open>A small table for concrete runs: one hole, one ScoreBall last touched by amy,
  the PlayerBalls of amy and bob (bob's last touched by amy) and the BlackBall, last
  touched by bob. The random stream is constant.\<close>

definition const_rng :: "real \<Rightarrow> rng" where
  "const_rng v k = v"

definition player_ball :: "socket_id \<Rightarrow> real \<Rightarrow> real \<Rightarrow> socket_id option \<Rightarrow> rigid_body" where
  "player_ball k px py t =
     circle px py PLAYER_BALL_RADIUS PlayerBall (Hsl 120) \<lparr>playerId := Some k, lastTouchedBy := t\<rparr>"

definition demo_state :: gstate where
  "demo_state =
     \<lparr>bodies = (\<lambda>_. rectangle 0 0 Wall)
         (10 := circle 0 0 holeRadius Hole DefaultFill,
          11 := circle 300 200 BALL_RADIUS ScoreBall White \<lparr>lastTouchedBy := Some ''amy''\<rparr>,
          12 := player_ball ''amy'' 400 400 None,
          13 := player_ball ''bob'' 20 30 (Some ''amy''),
          14 := circle 800 450 BLACK_BALL_RADIUS BlackBall Black \<lparr>lastTouchedBy := Some ''bob''\<rparr>),
      nextId = 15, world = [10, 11, 12, 13, 14],
      players = [''amy'' \<mapsto> \<lparr>body = 12, score = 3, cooldown = 1000, name = ''P-amy'', color = Hsl 120\<rparr>,
                 ''bob'' \<mapsto> \<lparr>body = 13, score = - 4, cooldown = 0, name = ''P-bob'', color = Hsl 120\<rparr>],
      scoreBalls = [11], blackBall = Some 14, gameActive = True, draws = 0\<rparr>"

text \<open>Two states of the same shape differ in the kinematics and attribution of
  bodies, in scores and in cooldowns at most.\<close>

definition same_shape :: "gstate \<Rightarrow> gstate \<Rightarrow> bool" where
  "same_shape s s' \<longleftrightarrow>
     world s' = world s \<and> nextId s' = nextId s \<and> scoreBalls s' = scoreBalls s
     \<and> blackBall s' = blackBall s \<and> gameActive s' = gameActive s
     \<and> (\<forall>i. label (bodies s' i) = label (bodies s i)
            \<and> playerId (bodies s' i) = playerId (bodies s i))
     \<and> (\<forall>k. map_option body (players s' k) = map_option body (players s k))"

text \<open>
  The states the server runs through: it starts in the state after module load;
  socket ids are non-empty; a physics step moves bodies without touching their
  label, owner or attribution, and reports contact pairs of bodies of the world.
\<close>

inductive reachable :: "rng \<Rightarrow> gstate \<Rightarrow> bool" for R :: rng where
    loaded: "reachable R (initial_state R)"
  | started: "reachable R s \<Longrightarrow> startGame_handler R data s = Inr (s', out) \<Longrightarrow> reachable R s'"
  | joined: "reachable R s \<Longrightarrow> sid \<noteq> [] \<Longrightarrow> reachable R (fst (joinGame R sid s))"
  | auto_joined: "reachable R s \<Longrightarrow> sid \<noteq> [] \<Longrightarrow> reachable R (fst (autoJoin R sid s))"
  | shot: "reachable R s \<Longrightarrow> shoot sid sdata now s = Inr (s', out) \<Longrightarrow> reachable R s'"
  | disconnected: "reachable R s \<Longrightarrow> reachable R (fst (disconnect sid s))"
  | collided: "reachable R s \<Longrightarrow>
       \<forall>pr\<in>set prs. fst pr \<in> set (world s) \<and> snd pr \<in> set (world s) \<Longrightarrow>
       collisionStart R prs s = Inr s' \<Longrightarrow> reachable R s'"
  | moved: "reachable R s \<Longrightarrow>
       \<forall>i. label (b i) = label (bodies s i) \<and> playerId (b i) = playerId (bodies s i)
           \<and> lastTouchedBy (b i) = lastTouchedBy (bodies s i) \<Longrightarrow>
       reachable R (s\<lparr>bodies := b\<rparr>)"

section \<open>Basic facts about the primitives and the loop of \<open>startGame\<close>\<close>

lemmas prims = random_def new_body_def update_body_def World_add_def World_remove_def
  Body_setPosition_def Body_setVelocity_def Body_applyForce_def set_lastTouchedBy_def
  add_score_def set_score_def truthy_def js_key_def js_or_def Let_def

lemma fold_World_remove: "fold World_remove xs s = s\<lparr>world := fold remove1 xs (world s)\<rparr>"
  by (induction xs arbitrary: s) (simp_all add: World_remove_def)

lemma ball_count_step: "real i < n \<Longrightarrow> ball_count n i = Suc (ball_count n (Suc i))"
  unfolding ball_count_def by linarith

lemma ball_count_stop: "\<not> real i < n \<Longrightarrow> ball_count n i = 0"
  unfolding ball_count_def by linarith

lemma filter_neq_notin: "x \<notin> set w \<Longrightarrow> filter (\<lambda>i. i \<noteq> x) w = w"
  by (induction w) auto

lemma remove1_filter: "distinct w \<Longrightarrow> remove1 x w = filter (\<lambda>i. i \<noteq> x) w"
  by (induction w) (auto simp: filter_neq_notin)

lemma fold_remove1_filter:
  "distinct w \<Longrightarrow> fold remove1 xs w = filter (\<lambda>i. i \<notin> set xs) w"
proof (induction xs arbitrary: w)
  case Nil
  then show ?case by simp
next
  case (Cons x xs)
  have d: "distinct (remove1 x w)" using Cons.prems by simp
  have "fold remove1 (x # xs) w = fold remove1 xs (remove1 x w)" by simp
  also have "\<dots> = filter (\<lambda>i. i \<notin> set xs) (remove1 x w)" by (rule Cons.IH [OF d])
  also have "\<dots> = filter (\<lambda>i. i \<notin> set xs) (filter (\<lambda>i. i \<noteq> x) w)"
    by (simp only: remove1_filter [OF Cons.prems])
  also have "\<dots> = filter (\<lambda>i. i \<notin> set (x # xs)) w"
    by (simp add: conj_commute)
  finally show ?case .
qed

lemma createScoreBall_fields:
  "fst (createScoreBall R s) = nextId s"
  "nextId (snd (createScoreBall R s)) = Suc (nextId s)"
  "world (snd (createScoreBall R s)) = world s"
  "scoreBalls (snd (createScoreBall R s)) = scoreBalls s"
  "players (snd (createScoreBall R s)) = players s"
  "blackBall (snd (createScoreBall R s)) = blackBall s"
  "gameActive (snd (createScoreBall R s)) = gameActive s"
  "draws (snd (createScoreBall R s)) = draws s + 3"
  "j \<noteq> nextId s \<Longrightarrow> bodies (snd (createScoreBall R s)) j = bodies s j"
  "label (bodies (snd (createScoreBall R s)) (nextId s)) = ScoreBall"
  "lastTouchedBy (bodies (snd (createScoreBall R s)) (nextId s)) = None"
  "playerId (bodies (snd (createScoreBall R s)) (nextId s)) = None"
  "velocity (bodies (snd (createScoreBall R s)) (nextId s)) = (0, 0)"
  "position (bodies (snd (createScoreBall R s)) (nextId s)) =
     (R (draws s) * 1400 + 100, R (Suc (draws s)) * 700 + 100)"
  by (simp_all add: createScoreBall_def prims circle_def)

lemma createBalls_unfold:
  "createBalls R n i s = (if real i < n then createBalls R n (Suc i) (ball_step R s) else s)"
  by (subst createBalls.simps)
     (simp add: Let_def case_prod_beta createScoreBall_fields ball_step_def)

lemma createBalls_induct [case_names step]:
  assumes "\<And>i s. (real i < n \<Longrightarrow> P (Suc i) (ball_step R s)) \<Longrightarrow> P i s"
  shows "P i s"
proof -
  have "\<forall>s. P i s"
  proof (induction "ball_count n i" arbitrary: i)
    case 0
    have "\<not> real i < n"
      using 0 ball_count_step [of i n] by auto
    then show ?case
      using assms by blast
  next
    case (Suc k)
    show ?case
    proof (cases "real i < n")
      case True
      then have "k = ball_count n (Suc i)"
        using Suc.hyps(2) by (simp add: ball_count_step)
      then have "\<forall>s. P (Suc i) s"
        by (rule Suc.hyps(1))
      then show ?thesis
        using assms by blast
    next
      case False
      then show ?thesis
        using assms by blast
    qed
  qed
  then show ?thesis ..
qed

lemma ball_step_fields:
  "nextId (ball_step R s) = Suc (nextId s)"
  "world (ball_step R s) = world s @ [nextId s]"
  "scoreBalls (ball_step R s) = scoreBalls s @ [nextId s]"
  "players (ball_step R s) = players s"
  "blackBall (ball_step R s) = blackBall s"
  "gameActive (ball_step R s) = gameActive s"
  "draws (ball_step R s) = draws s + 3"
  "j \<noteq> nextId s \<Longrightarrow> bodies (ball_step R s) j = bodies s j"
  "label (bodies (ball_step R s) (nextId s)) = ScoreBall"
  "lastTouchedBy (bodies (ball_step R s) (nextId s)) = None"
  "playerId (bodies (ball_step R s) (nextId s)) = None"
  "velocity (bodies (ball_step R s) (nextId s)) = (0, 0)"
  "position (bodies (ball_step R s) (nextId s)) =
     (R (draws s) * 1400 + 100, R (Suc (draws s)) * 700 + 100)"
  by (simp_all add: ball_step_def World_add_def createScoreBall_fields)

lemma createBalls_nextId: "nextId (createBalls R n i s) = nextId s + ball_count n i"
proof (induction i s rule: createBalls_induct [where n = n and R = R])
  case (step i s)
  show ?case
    using step by (simp add: createBalls_unfold [of R n i s] ball_step_fields ball_count_step ball_count_stop)
qed

lemma createBalls_world:
  "world (createBalls R n i s) = world s @ [nextId s ..< nextId s + ball_count n i]"
proof (induction i s rule: createBalls_induct [where n = n and R = R])
  case (step i s)
  show ?case
    using step by (simp add: createBalls_unfold [of R n i s] ball_step_fields ball_count_step ball_count_stop upt_conv_Cons)
qed

lemma createBalls_scoreBalls:
  "scoreBalls (createBalls R n i s) = scoreBalls s @ [nextId s ..< nextId s + ball_count n i]"
proof (induction i s rule: createBalls_induct [where n = n and R = R])
  case (step i s)
  show ?case
    using step by (simp add: createBalls_unfold [of R n i s] ball_step_fields ball_count_step ball_count_stop upt_conv_Cons)
qed

lemma createBalls_frame:
  "players (createBalls R n i s) = players s \<and> blackBall (createBalls R n i s) = blackBall s
   \<and> gameActive (createBalls R n i s) = gameActive s
   \<and> draws (createBalls R n i s) = draws s + 3 * ball_count n i"
proof (induction i s rule: createBalls_induct [where n = n and R = R])
  case (step i s)
  show ?case
    using step by (simp add: createBalls_unfold [of R n i s] ball_step_fields ball_count_step ball_count_stop)
qed

lemma createBalls_bodies_old:
  "j < nextId s \<Longrightarrow> bodies (createBalls R n i s) j = bodies s j"
proof (induction i s rule: createBalls_induct [where n = n and R = R])
  case (step i s)
  show ?case
    using step by (simp add: createBalls_unfold [of R n i s] ball_step_fields)
qed

lemma createBalls_bodies_new:
  "nextId s \<le> j \<Longrightarrow> j < nextId s + ball_count n i \<Longrightarrow>
   label (bodies (createBalls R n i s) j) = ScoreBall
   \<and> lastTouchedBy (bodies (createBalls R n i s) j) = None
   \<and> playerId (bodies (createBalls R n i s) j) = None
   \<and> velocity (bodies (createBalls R n i s) j) = (0, 0)
   \<and> (\<exists>k. position (bodies (createBalls R n i s) j) = (R k * 1400 + 100, R (Suc k) * 700 + 100))"
proof (induction i s rule: createBalls_induct [where n = n and R = R])
  case (step i s)
  show ?case
  proof (cases "real i < n")
    case True
    note IH = step.IH [OF True]
    show ?thesis
    proof (cases "j = nextId s")
      case True
      have "bodies (createBalls R n (Suc i) (ball_step R s)) j = bodies (ball_step R s) j"
        by (rule createBalls_bodies_old) (simp add: True ball_step_fields)
      then show ?thesis
        using \<open>real i < n\<close> True
        by (auto simp add: createBalls_unfold [of R n i s] ball_step_fields)
    next
      case False
      then show ?thesis
        using IH step.prems True
        by (simp add: createBalls_unfold [of R n i s] ball_step_fields ball_count_step)
    qed
  next
    case False
    then show ?thesis using step.prems by (simp add: ball_count_stop)
  qed
qed


lemma clear_balls_fields:
  "nextId (clear_balls s) = nextId s"
  "bodies (clear_balls s) = bodies s"
  "players (clear_balls s) = players s"
  "blackBall (clear_balls s) = blackBall s"
  "gameActive (clear_balls s) = gameActive s"
  "draws (clear_balls s) = draws s"
  "scoreBalls (clear_balls s) = []"
  by (simp_all add: clear_balls_def fold_World_remove World_remove_def Let_def split: option.split)

lemma clear_balls_world:
  "distinct (world s) \<Longrightarrow>
   world (clear_balls s) =
     filter (\<lambda>i. i \<notin> set (scoreBalls s) \<and> blackBall s \<noteq> Some i) (world s)"
  by (auto simp add: clear_balls_def fold_World_remove World_remove_def Let_def
        fold_remove1_filter remove1_filter split: option.split intro: filter_cong)

lemma startGame_unfold:
  "startGame R n s =
     (let s4 = createBalls R n 0 (clear_balls s);
          bb = nextId s4;
          s5 = s4\<lparr>bodies := (bodies s4)(bb := circle 800 450 BLACK_BALL_RADIUS BlackBall Black),
                   nextId := Suc bb\<rparr>
      in s5\<lparr>blackBall := Some bb, world := world s5 @ [bb],
             players := (\<lambda>id. map_option (\<lambda>p. p\<lparr>score := 0\<rparr>) (players s5 id)),
             gameActive := True\<rparr>)"
  by (simp add: startGame_def clear_balls_def createBlackBall_def new_body_def World_add_def
        Let_def circle_def)

lemma startGame_fields:
  "scoreBalls (startGame R n s) = [nextId s ..< nextId s + ball_count n 0]"
  "blackBall (startGame R n s) = Some (nextId s + ball_count n 0)"
  "nextId (startGame R n s) = Suc (nextId s + ball_count n 0)"
  "gameActive (startGame R n s)"
  "players (startGame R n s) k = map_option (\<lambda>p. p\<lparr>score := 0\<rparr>) (players s k)"
  "draws (startGame R n s) = draws s + 3 * ball_count n 0"
  "world (startGame R n s) =
     world (clear_balls s) @ [nextId s ..< nextId s + ball_count n 0] @ [nextId s + ball_count n 0]"
  "bodies (startGame R n s) (nextId s + ball_count n 0) =
     circle 800 450 BLACK_BALL_RADIUS BlackBall Black"
  by (simp_all add: startGame_unfold Let_def createBalls_nextId createBalls_world
        createBalls_scoreBalls createBalls_frame clear_balls_fields)

lemma startGame_bodies_old:
  "j < nextId s \<Longrightarrow> bodies (startGame R n s) j = bodies s j"
  by (simp add: startGame_unfold Let_def createBalls_nextId createBalls_bodies_old
        clear_balls_fields)

lemma startGame_bodies_new:
  assumes "nextId s \<le> j" "j < nextId s + ball_count n 0"
  shows "label (bodies (startGame R n s) j) = ScoreBall
   \<and> lastTouchedBy (bodies (startGame R n s) j) = None
   \<and> playerId (bodies (startGame R n s) j) = None
   \<and> velocity (bodies (startGame R n s) j) = (0, 0)
   \<and> (\<exists>k. position (bodies (startGame R n s) j) = (R k * 1400 + 100, R (Suc k) * 700 + 100))"
  using assms createBalls_bodies_new [of "clear_balls s" j n 0 R]
  by (simp add: startGame_unfold Let_def createBalls_nextId clear_balls_fields)

section \<open>Concrete inputs and the hole branch of the listener\<close>

lemma demo_state_ok: "state_ok demo_state"
  unfolding state_ok_def
  by (auto simp add: demo_state_def player_ball_def circle_def rectangle_def split: if_splits)

lemma unit_rng_const: "unit_rng (const_rng (1/2))"
  by (simp add: unit_rng_def const_rng_def)

lemma inset_random:
  "unit_rng R \<Longrightarrow> inset (R i * (1600 - 200) + 100, R j * (900 - 200) + 100)"
  unfolding unit_rng_def inset_def
proof -
  assume a: "\<forall>k. 0 \<le> R k \<and> R k < 1"
  have "0 \<le> R i" "R i < 1" "0 \<le> R j" "R j < 1" using a by auto
  then show "100 \<le> fst (R i * (1600 - 200) + 100, R j * (900 - 200) + 100) \<and>
    fst (R i * (1600 - 200) + 100, R j * (900 - 200) + 100) \<le> 1500 \<and>
    100 \<le> snd (R i * (1600 - 200) + 100, R j * (900 - 200) + 100) \<and>
    snd (R i * (1600 - 200) + 100, R j * (900 - 200) + 100) \<le> 800"
    by simp
qed

lemma handlePair_hole:
  assumes "label (bodies s h) = Hole" "label (bodies s ball) \<noteq> Hole"
    "pr = (h, ball) \<or> pr = (ball, h)"
  shows "handlePair R pr s = handleHoleCollision R ball s"
  using assms by (auto simp add: handlePair_def Let_def)

lemma demo_state_fields:
  "world demo_state = [10, 11, 12, 13, 14]"
  "label (bodies demo_state 10) = Hole"
  "label (bodies demo_state 11) = ScoreBall"
  "label (bodies demo_state 12) = PlayerBall"
  "label (bodies demo_state 13) = PlayerBall"
  "label (bodies demo_state 14) = BlackBall"
  "lastTouchedBy (bodies demo_state 11) = Some ''amy''"
  "lastTouchedBy (bodies demo_state 12) = None"
  "lastTouchedBy (bodies demo_state 13) = Some ''amy''"
  "lastTouchedBy (bodies demo_state 14) = Some ''bob''"
  "playerId (bodies demo_state 12) = Some ''amy''"
  "playerId (bodies demo_state 13) = Some ''bob''"
  "players demo_state ''amy'' =
     Some \<lparr>body = 12, score = 3, cooldown = 1000, name = ''P-amy'', color = Hsl 120\<rparr>"
  "players demo_state ''bob'' =
     Some \<lparr>body = 13, score = - 4, cooldown = 0, name = ''P-bob'', color = Hsl 120\<rparr>"
  by (simp_all add: demo_state_def player_ball_def circle_def)

section \<open>Touch attribution\<close>

lemma handleHoleCollision_attribution:
  "handleHoleCollision R ball s = Inr s' \<Longrightarrow>
   lastTouchedBy (bodies s' i) = lastTouchedBy (bodies s i) \<or> lastTouchedBy (bodies s' i) = None"
  by (auto simp add: handleHoleCollision_def respawnScoreBall_def respawnPlayer_def
        respawnBlackBall_def prims split: if_splits option.splits)

text \<open>
  Claim C1, as the code has it. For a contact pair without a Hole the listener writes
  \<open>lastTouchedBy\<close> in two cases and in no other: when \<open>bodyA\<close> is a PlayerBall and
  \<open>bodyB\<close> is not a Wall, \<open>bodyB.lastTouchedBy\<close> becomes the \<open>playerId\<close> of \<open>bodyA\<close>,
  also when \<open>bodyB\<close> is a PlayerBall itself; when only \<open>bodyB\<close> is a PlayerBall and
  \<open>bodyA\<close> is not a Wall, \<open>bodyA.lastTouchedBy\<close> becomes the \<open>playerId\<close> of \<open>bodyB\<close>.
  Nothing else of the state changes, and in every other case the state stays as
  it is. A pair with a Hole is left to the hole rules, which give no body a new
  toucher: every \<open>lastTouchedBy\<close> keeps its value or becomes null.
\<close>

theorem attribution_rule:
  "(label (bodies s a) \<noteq> Hole \<and> label (bodies s b) \<noteq> Hole \<longrightarrow>
     (\<exists>s'. handlePair R (a, b) s = Inr s' \<and>
       (label (bodies s a) = PlayerBall \<and> label (bodies s b) \<noteq> Wall \<longrightarrow>
          s' = s\<lparr>bodies := (bodies s)(b := (bodies s b)\<lparr>lastTouchedBy := playerId (bodies s a)\<rparr>)\<rparr>) \<and>
       (label (bodies s a) \<noteq> PlayerBall \<and> label (bodies s b) = PlayerBall
          \<and> label (bodies s a) \<noteq> Wall \<longrightarrow>
          s' = s\<lparr>bodies := (bodies s)(a := (bodies s a)\<lparr>lastTouchedBy := playerId (bodies s b)\<rparr>)\<rparr>) \<and>
       (\<not> (label (bodies s a) = PlayerBall \<and> label (bodies s b) \<noteq> Wall) \<and>
        \<not> (label (bodies s b) = PlayerBall \<and> label (bodies s a) \<noteq> Wall) \<longrightarrow> s' = s)))
   \<and> (label (bodies s a) = Hole \<or> label (bodies s b) = Hole \<longrightarrow>
     (\<forall>s' i. handlePair R (a, b) s = Inr s' \<longrightarrow>
        lastTouchedBy (bodies s' i) = lastTouchedBy (bodies s i)
        \<or> lastTouchedBy (bodies s' i) = None))"
proof (intro conjI impI allI)
  assume "label (bodies s a) \<noteq> Hole \<and> label (bodies s b) \<noteq> Hole"
  then show "\<exists>s'. handlePair R (a, b) s = Inr s' \<and>
       (label (bodies s a) = PlayerBall \<and> label (bodies s b) \<noteq> Wall \<longrightarrow>
          s' = s\<lparr>bodies := (bodies s)(b := (bodies s b)\<lparr>lastTouchedBy := playerId (bodies s a)\<rparr>)\<rparr>) \<and>
       (label (bodies s a) \<noteq> PlayerBall \<and> label (bodies s b) = PlayerBall
          \<and> label (bodies s a) \<noteq> Wall \<longrightarrow>
          s' = s\<lparr>bodies := (bodies s)(a := (bodies s a)\<lparr>lastTouchedBy := playerId (bodies s b)\<rparr>)\<rparr>) \<and>
       (\<not> (label (bodies s a) = PlayerBall \<and> label (bodies s b) \<noteq> Wall) \<and>
        \<not> (label (bodies s b) = PlayerBall \<and> label (bodies s a) \<noteq> Wall) \<longrightarrow> s' = s)"
    by (auto simp: handlePair_def prims)
next
  fix s' i
  assume h: "label (bodies s a) = Hole \<or> label (bodies s b) = Hole"
    and r: "handlePair R (a, b) s = Inr s'"
  have "handleHoleCollision R a s = Inr s' \<or> handleHoleCollision R b s = Inr s'"
    using h r by (auto simp add: handlePair_def Let_def split: if_splits)
  then show "lastTouchedBy (bodies s' i) = lastTouchedBy (bodies s i)
        \<or> lastTouchedBy (bodies s' i) = None"
    using handleHoleCollision_attribution [of R a s s' i]
      handleHoleCollision_attribution [of R b s s' i]
    by auto
qed

text \<open>C1 at two concrete pairs: amy's PlayerBall touches the ScoreBall, which is
  then attributed to amy; bob's PlayerBall meets the hole, its own attribution
  becomes null and the ScoreBall keeps amy.\<close>

theorem attribution_rule_witness:
  "label (bodies demo_state 12) \<noteq> Hole \<and> label (bodies demo_state 11) \<noteq> Hole
   \<and> label (bodies demo_state 12) = PlayerBall \<and> label (bodies demo_state 11) \<noteq> Wall
   \<and> handlePair (const_rng (1/2)) (12, 11) demo_state =
       Inr (demo_state\<lparr>bodies := (bodies demo_state)
              (11 := (bodies demo_state 11)\<lparr>lastTouchedBy := Some ''amy''\<rparr>)\<rparr>)
   \<and> label (bodies demo_state 10) = Hole
   \<and> lastTouchedBy (bodies demo_state 13) = Some ''amy''
   \<and> (\<exists>s'. handlePair (const_rng (1/2)) (10, 13) demo_state = Inr s'
         \<and> lastTouchedBy (bodies s' 13) = None
         \<and> lastTouchedBy (bodies s' 11) = Some ''amy'')"
proof -
  have h: "label (bodies demo_state 12) \<noteq> Hole \<and> label (bodies demo_state 11) \<noteq> Hole"
    by (simp add: demo_state_fields)
  have h2: "label (bodies demo_state 10) = Hole \<or> label (bodies demo_state 13) = Hole"
    by (simp add: demo_state_fields)
  have 1: "handlePair (const_rng (1/2)) (12, 11) demo_state =
       Inr (demo_state\<lparr>bodies := (bodies demo_state)
              (11 := (bodies demo_state 11)\<lparr>lastTouchedBy := Some ''amy''\<rparr>)\<rparr>)"
    using attribution_rule [of demo_state 12 11 "const_rng (1/2)"] h
    by (auto simp add: demo_state_fields)
  obtain s' where r: "handlePair (const_rng (1/2)) (10, 13) demo_state = Inr s'"
    "lastTouchedBy (bodies s' 13) = None" "lastTouchedBy (bodies s' 11) \<noteq> None"
    by (simp add: handlePair_def handleHoleCollision_def respawnPlayer_def prims
          demo_state_def player_ball_def circle_def)
  have "lastTouchedBy (bodies s' 11) = lastTouchedBy (bodies demo_state 11)
        \<or> lastTouchedBy (bodies s' 11) = None"
    using attribution_rule [of demo_state 10 13 "const_rng (1/2)", THEN conjunct2] h2 r(1)
    by simp
  then have 2: "lastTouchedBy (bodies s' 11) = Some ''amy''"
    using r(3) by (simp add: demo_state_fields)
  show ?thesis
    using h 1 2 r(1,2) by (simp add: demo_state_fields)
qed

text \<open>C1 as stated fails: in the pair (bob's PlayerBall, amy's PlayerBall) both sides
  are PlayerBalls, and the listener sets \<open>lastTouchedBy\<close> of amy's ball, null before,
  to bob's id.\<close>

theorem both_playerBalls_counterexample:
  "label (bodies demo_state 13) = PlayerBall \<and> label (bodies demo_state 12) = PlayerBall
   \<and> lastTouchedBy (bodies demo_state 12) = None
   \<and> lastTouchedBy (bodies (projr (handlePair (const_rng (1/2)) (13, 12) demo_state)) 12) = Some ''bob''"
  by (simp add: handlePair_def prims demo_state_def player_ball_def circle_def)

section \<open>Hole rules\<close>

text \<open>
  Claim C4. A contact of a Hole and a ScoreBall, in either order: the player that the
  ball's \<open>lastTouchedBy\<close> names gains exactly one point when connected, no other score
  changes, and nothing is credited when that player is not connected or the field is
  null. The ball gets a position inside the inset rectangle (x from 100 to 1500, y
  from 100 to 800), velocity zero and \<open>lastTouchedBy\<close> null; the world and the
  \<open>scoreBalls\<close> array keep it, and no other body changes.
\<close>

theorem scoreBall_hole:
  assumes "unit_rng R" "[] \<notin> dom (players s)"
    and "label (bodies s h) = Hole" "label (bodies s ball) = ScoreBall"
    and "pr = (h, ball) \<or> pr = (ball, h)"
  shows "\<exists>s'. handlePair R pr s = Inr s'
    \<and> (\<forall>k. players s' k =
          (if lastTouchedBy (bodies s ball) = Some k
           then map_option (\<lambda>p. p\<lparr>score := score p + 1\<rparr>) (players s k)
           else players s k))
    \<and> inset (position (bodies s' ball))
    \<and> velocity (bodies s' ball) = (0, 0)
    \<and> lastTouchedBy (bodies s' ball) = None
    \<and> world s' = world s \<and> scoreBalls s' = scoreBalls s
    \<and> (\<forall>i. i \<noteq> ball \<longrightarrow> bodies s' i = bodies s i)"
proof -
  have hp: "handlePair R pr s = handleHoleCollision R ball s"
    using assms(3-5) by (intro handlePair_hole [of s h]) auto
  have pos: "inset (R (draws s) * (1600 - 200) + 100, R (Suc (draws s)) * (900 - 200) + 100)"
    by (rule inset_random [OF assms(1)])
  show ?thesis
    unfolding hp using assms(2,4) pos
    by (cases "lastTouchedBy (bodies s ball)")
       (auto simp add: handleHoleCollision_def respawnScoreBall_def prims domIff
          split: option.splits)
qed

text \<open>C4 on the small table: the ScoreBall last touched by amy falls into the hole.\<close>

theorem scoreBall_hole_witness:
  "unit_rng (const_rng (1/2)) \<and> [] \<notin> dom (players demo_state)
   \<and> label (bodies demo_state 10) = Hole \<and> label (bodies demo_state 11) = ScoreBall
   \<and> lastTouchedBy (bodies demo_state 11) = Some ''amy''
   \<and> map_option score (players demo_state ''amy'') = Some 3
   \<and> (\<exists>s'. handlePair (const_rng (1/2)) (11, 10) demo_state = Inr s'
        \<and> map_option score (players s' ''amy'') = Some 4
        \<and> map_option score (players s' ''bob'') = Some (- 4)
        \<and> inset (position (bodies s' 11))
        \<and> velocity (bodies s' 11) = (0, 0)
        \<and> lastTouchedBy (bodies s' 11) = None
        \<and> world s' = [10, 11, 12, 13, 14])"
proof -
  have h1: "unit_rng (const_rng (1/2))"
    by (simp add: unit_rng_def const_rng_def)
  have h2: "[] \<notin> dom (players demo_state)"
    by (simp add: demo_state_def)
  have h3: "label (bodies demo_state 10) = Hole"
    by (simp add: demo_state_def circle_def)
  have h4: "label (bodies demo_state 11) = ScoreBall"
    by (simp add: demo_state_def circle_def)
  have h5: "(11, 10) = (10, 11) \<or> (11, 10) = (11, 10::nat)"
    by simp
  have t: "lastTouchedBy (bodies demo_state 11) = Some ''amy''"
    by (simp add: demo_state_def circle_def)
  have p: "map_option score (players demo_state ''amy'') = Some 3"
     "map_option score (players demo_state ''bob'') = Some (- 4)"
     "world demo_state = [10, 11, 12, 13, 14]"
    by (simp_all add: demo_state_def)
  from scoreBall_hole [OF h1 h2 h3 h4 h5] obtain s' where
    r: "handlePair (const_rng (1/2)) (11, 10) demo_state = Inr s'"
     "\<forall>k. players s' k =
          (if lastTouchedBy (bodies demo_state 11) = Some k
           then map_option (\<lambda>p. p\<lparr>score := score p + 1\<rparr>) (players demo_state k)
           else players demo_state k)"
     "inset (position (bodies s' 11))" "velocity (bodies s' 11) = (0, 0)"
     "lastTouchedBy (bodies s' 11) = None" "world s' = world demo_state"
    by blast
  have "map_option score (players s' ''amy'') = Some 4"
     "map_option score (players s' ''bob'') = Some (- 4)"
    using r(2) t p by (simp_all add: option.map_comp comp_def)
  then show ?thesis
    using h1 h2 h3 h4 t p r by simp
qed

text \<open>
  Claim C3. A contact of a Hole and a PlayerBall of the world, in either order: the
  ball has an owner with a session, whose score drops by exactly 5 whatever
  \<open>lastTouchedBy\<close> holds; the player that \<open>lastTouchedBy\<close> names gains exactly 10 when
  it is another player and is connected, and no other score changes. The ball gets
  a position inside the inset rectangle, velocity zero and \<open>lastTouchedBy\<close> null; it
  stays in the world and stays the owner's ball, and the owner's session stays.
\<close>

theorem playerBall_hole:
  assumes "unit_rng R" "state_ok s" "ball \<in> set (world s)"
    and "label (bodies s h) = Hole" "label (bodies s ball) = PlayerBall"
    and "pr = (h, ball) \<or> pr = (ball, h)"
  shows "\<exists>s' v pv. playerId (bodies s ball) = Some v \<and> players s v = Some pv
    \<and> body pv = ball
    \<and> handlePair R pr s = Inr s'
    \<and> (\<forall>k. players s' k =
          (if k = v then Some (pv\<lparr>score := score pv - 5\<rparr>)
           else if lastTouchedBy (bodies s ball) = Some k
           then map_option (\<lambda>p. p\<lparr>score := score p + 10\<rparr>) (players s k)
           else players s k))
    \<and> inset (position (bodies s' ball))
    \<and> velocity (bodies s' ball) = (0, 0)
    \<and> lastTouchedBy (bodies s' ball) = None
    \<and> label (bodies s' ball) = PlayerBall \<and> playerId (bodies s' ball) = Some v
    \<and> world s' = world s
    \<and> (\<forall>i. i \<noteq> ball \<longrightarrow> bodies s' i = bodies s i)"
proof -
  have hp: "handlePair R pr s = handleHoleCollision R ball s"
    using assms(4-6) by (intro handlePair_hole [of s h]) auto
  obtain v pv where own: "playerId (bodies s ball) = Some v" "players s v = Some pv" "body pv = ball"
    using assms(2,3,5) unfolding state_ok_def by blast
  have ne: "[] \<notin> dom (players s)"
    using assms(2) unfolding state_ok_def by blast
  have pos: "inset (R (draws s) * (1600 - 200) + 100, R (Suc (draws s)) * (900 - 200) + 100)"
    by (rule inset_random [OF assms(1)])
  have "\<exists>s'. handleHoleCollision R ball s = Inr s'
    \<and> (\<forall>k. players s' k =
          (if k = v then Some (pv\<lparr>score := score pv - 5\<rparr>)
           else if lastTouchedBy (bodies s ball) = Some k
           then map_option (\<lambda>p. p\<lparr>score := score p + 10\<rparr>) (players s k)
           else players s k))
    \<and> inset (position (bodies s' ball))
    \<and> velocity (bodies s' ball) = (0, 0)
    \<and> lastTouchedBy (bodies s' ball) = None
    \<and> label (bodies s' ball) = PlayerBall \<and> playerId (bodies s' ball) = Some v
    \<and> world s' = world s
    \<and> (\<forall>i. i \<noteq> ball \<longrightarrow> bodies s' i = bodies s i)"
    using assms(5) own ne pos
    by (cases "lastTouchedBy (bodies s ball)")
       (auto simp add: handleHoleCollision_def respawnPlayer_def prims domIff
          split: option.splits)
  then show ?thesis
    unfolding hp using own by blast
qed

text \<open>C3 on the small table: bob's PlayerBall, last touched by amy, falls into the
  hole.\<close>

theorem playerBall_hole_witness:
  "unit_rng (const_rng (1/2)) \<and> state_ok demo_state \<and> 13 \<in> set (world demo_state)
   \<and> label (bodies demo_state 10) = Hole \<and> label (bodies demo_state 13) = PlayerBall
   \<and> lastTouchedBy (bodies demo_state 13) = Some ''amy''
   \<and> map_option score (players demo_state ''amy'') = Some 3
   \<and> map_option score (players demo_state ''bob'') = Some (- 4)
   \<and> (\<exists>s'. handlePair (const_rng (1/2)) (10, 13) demo_state = Inr s'
        \<and> map_option score (players s' ''bob'') = Some (- 9)
        \<and> map_option score (players s' ''amy'') = Some 13
        \<and> inset (position (bodies s' 13))
        \<and> velocity (bodies s' 13) = (0, 0)
        \<and> lastTouchedBy (bodies s' 13) = None
        \<and> world s' = [10, 11, 12, 13, 14])"
proof -
  have h1: "unit_rng (const_rng (1/2))"
    by (rule unit_rng_const)
  have h3: "13 \<in> set (world demo_state)"
    by (simp add: demo_state_fields)
  have h4: "label (bodies demo_state 10) = Hole" "label (bodies demo_state 13) = PlayerBall"
    by (simp_all add: demo_state_fields)
  have h5: "(10, 13) = (10, 13) \<or> (10, 13) = (13, 10::nat)"
    by simp
  from playerBall_hole [OF h1 demo_state_ok h3 h4 h5] obtain s' v pv where
    r: "playerId (bodies demo_state 13) = Some v" "players demo_state v = Some pv"
     "handlePair (const_rng (1/2)) (10, 13) demo_state = Inr s'"
     "\<forall>k. players s' k =
          (if k = v then Some (pv\<lparr>score := score pv - 5\<rparr>)
           else if lastTouchedBy (bodies demo_state 13) = Some k
           then map_option (\<lambda>p. p\<lparr>score := score p + 10\<rparr>) (players demo_state k)
           else players demo_state k)"
     "inset (position (bodies s' 13))" "velocity (bodies s' 13) = (0, 0)"
     "lastTouchedBy (bodies s' 13) = None" "world s' = world demo_state"
    by blast
  have v: "v = ''bob''"
    using r(1) by (simp add: demo_state_fields)
  have pv: "pv = \<lparr>body = 13, score = - 4, cooldown = 0, name = ''P-bob'', color = Hsl 120\<rparr>"
    using r(2) by (simp add: v demo_state_fields)
  have "map_option score (players s' ''bob'') = Some (- 9)"
     "map_option score (players s' ''amy'') = Some 13"
    using r(4) by (simp_all add: v pv demo_state_fields)
  then show ?thesis
    using h1 demo_state_ok r by (simp add: demo_state_fields)
qed

text \<open>
  Claim C5. A contact of a Hole and the BlackBall of the world, in either order: the
  score of the player that \<open>lastTouchedBy\<close> names becomes exactly 0 when that player
  is connected, whatever it was, and no other score changes. The black ball is put
  at the table centre (800, 450) with velocity zero and \<open>lastTouchedBy\<close> null, and
  stays in the world.
\<close>

theorem blackBall_hole:
  assumes "state_ok s" "ball \<in> set (world s)"
    and "label (bodies s h) = Hole" "label (bodies s ball) = BlackBall"
    and "pr = (h, ball) \<or> pr = (ball, h)"
  shows "\<exists>s'. handlePair R pr s = Inr s'
    \<and> (\<forall>k. players s' k =
          (if lastTouchedBy (bodies s ball) = Some k
           then map_option (\<lambda>p. p\<lparr>score := 0\<rparr>) (players s k)
           else players s k))
    \<and> position (bodies s' ball) = (800, 450)
    \<and> velocity (bodies s' ball) = (0, 0)
    \<and> lastTouchedBy (bodies s' ball) = None
    \<and> world s' = world s \<and> blackBall s' = Some ball
    \<and> (\<forall>i. i \<noteq> ball \<longrightarrow> bodies s' i = bodies s i)"
proof -
  have hp: "handlePair R pr s = handleHoleCollision R ball s"
    using assms(3-5) by (intro handlePair_hole [of s h]) auto
  have bb: "blackBall s = Some ball"
    using assms(1,2,4) unfolding state_ok_def by blast
  have ne: "[] \<notin> dom (players s)"
    using assms(1) unfolding state_ok_def by blast
  show ?thesis
    unfolding hp using assms(4) bb ne
    by (cases "lastTouchedBy (bodies s ball)")
       (auto simp add: handleHoleCollision_def respawnBlackBall_def prims domIff
          split: option.splits)
qed

text \<open>C5 on the small table: the BlackBall, last touched by bob whose score is
  negative, falls into the hole.\<close>

theorem blackBall_hole_witness:
  "state_ok demo_state \<and> 14 \<in> set (world demo_state)
   \<and> label (bodies demo_state 10) = Hole \<and> label (bodies demo_state 14) = BlackBall
   \<and> lastTouchedBy (bodies demo_state 14) = Some ''bob''
   \<and> map_option score (players demo_state ''bob'') = Some (- 4)
   \<and> (\<exists>s'. handlePair (const_rng (1/2)) (14, 10) demo_state = Inr s'
        \<and> map_option score (players s' ''bob'') = Some 0
        \<and> map_option score (players s' ''amy'') = Some 3
        \<and> position (bodies s' 14) = (800, 450)
        \<and> velocity (bodies s' 14) = (0, 0)
        \<and> lastTouchedBy (bodies s' 14) = None)"
proof -
  have h3: "14 \<in> set (world demo_state)"
    by (simp add: demo_state_fields)
  have h4: "label (bodies demo_state 10) = Hole" "label (bodies demo_state 14) = BlackBall"
    by (simp_all add: demo_state_fields)
  have h5: "(14, 10) = (10, 14) \<or> (14, 10) = (14, 10::nat)"
    by simp
  from blackBall_hole [OF demo_state_ok h3 h4 h5] obtain s' where
    r: "handlePair (const_rng (1/2)) (14, 10) demo_state = Inr s'"
     "\<forall>k. players s' k =
          (if lastTouchedBy (bodies demo_state 14) = Some k
           then map_option (\<lambda>p. p\<lparr>score := 0\<rparr>) (players demo_state k)
           else players demo_state k)"
     "position (bodies s' 14) = (800, 450)" "velocity (bodies s' 14) = (0, 0)"
     "lastTouchedBy (bodies s' 14) = None"
    by blast
  have "map_option score (players s' ''bob'') = Some 0"
     "map_option score (players s' ''amy'') = Some 3"
    using r(2) by (simp_all add: demo_state_fields)
  then show ?thesis
    using demo_state_ok r by (simp add: demo_state_fields)
qed

section \<open>Input gate\<close>

text \<open>
  Claim C6. For a connected player: a shoot before the player's cooldown expiry
  returns the state as it is and emits nothing, whatever the payload. A shoot at or
  after the expiry, with a payload, adds the vector
  (cos angle * (force * 0.3), sin angle * (force * 0.3)) to the force accumulator of
  the player's body and nothing to its torque, the point of application being the
  body's own position; it sets the expiry to now + 750 and emits the cooldown
  notification with 750 to the sender. Every further shoot of that player before
  now + 750 is then dropped, so the force is applied once per window. (An accepted
  shoot without any payload throws while reading the payload; the theorem speaks
  of payloads that are objects.)
\<close>

theorem shoot_cooldown:
  assumes "players s sid = Some p"
  shows "(now < cooldown p \<longrightarrow> shoot sid data now s = Inr (s, []))
    \<and> (cooldown p \<le> now \<longrightarrow>
        (\<exists>s'. shoot sid (Some d) now s = Inr (s', [ToSocket sid (CooldownNotify 750)])
           \<and> force (bodies s' (body p)) =
               (fst (force (bodies s (body p))) + cos (js_or (angle_field d) 0) * (js_or (force_field d) 0 * 0.3),
                snd (force (bodies s (body p))) + sin (js_or (angle_field d) 0) * (js_or (force_field d) 0 * 0.3))
           \<and> torque (bodies s' (body p)) = torque (bodies s (body p))
           \<and> position (bodies s' (body p)) = position (bodies s (body p))
           \<and> velocity (bodies s' (body p)) = velocity (bodies s (body p))
           \<and> (\<forall>i. i \<noteq> body p \<longrightarrow> bodies s' i = bodies s i)
           \<and> players s' = (players s)(sid \<mapsto> p\<lparr>cooldown := now + 750\<rparr>)
           \<and> world s' = world s
           \<and> (\<forall>t data'. now \<le> t \<and> t < now + 750 \<longrightarrow> shoot sid data' t s' = Inr (s', []))))"
  using assms by (auto simp add: shoot_def prims)

text \<open>C6 on the small table: bob's cooldown has expired and amy's has not.\<close>

theorem shoot_cooldown_witness:
  "players demo_state ''bob'' =
     Some \<lparr>body = 13, score = - 4, cooldown = 0, name = ''P-bob'', color = Hsl 120\<rparr>
   \<and> force (bodies demo_state 13) = (0, 0)
   \<and> (\<exists>s'. shoot ''bob'' (Some \<lparr>force_field = Some 10, angle_field = Some 0\<rparr>) 5000 demo_state
            = Inr (s', [ToSocket ''bob'' (CooldownNotify 750)])
        \<and> force (bodies s' 13) = (3, 0)
        \<and> map_option cooldown (players s' ''bob'') = Some 5750
        \<and> shoot ''bob'' (Some \<lparr>force_field = Some 10, angle_field = Some 0\<rparr>) 5749 s' = Inr (s', []))
   \<and> shoot ''amy'' (Some \<lparr>force_field = Some 10, angle_field = Some 0\<rparr>) 999 demo_state
        = Inr (demo_state, [])"
proof -
  let ?d = "\<lparr>force_field = Some 10, angle_field = Some 0\<rparr>"
  have pb: "players demo_state ''bob'' =
     Some \<lparr>body = 13, score = - 4, cooldown = 0, name = ''P-bob'', color = Hsl 120\<rparr>"
    by (simp add: demo_state_fields)
  have pa: "players demo_state ''amy'' =
     Some \<lparr>body = 12, score = 3, cooldown = 1000, name = ''P-amy'', color = Hsl 120\<rparr>"
    by (simp add: demo_state_fields)
  have f0: "force (bodies demo_state 13) = (0, 0)"
    by (simp add: demo_state_def player_ball_def circle_def)
  from shoot_cooldown [OF pb, of 5000 _ ?d] obtain s' where
    r: "shoot ''bob'' (Some ?d) 5000 demo_state = Inr (s', [ToSocket ''bob'' (CooldownNotify 750)])"
      "force (bodies s' 13) =
         (fst (force (bodies demo_state 13)) + cos (js_or (angle_field ?d) 0) * (js_or (force_field ?d) 0 * 0.3),
          snd (force (bodies demo_state 13)) + sin (js_or (angle_field ?d) 0) * (js_or (force_field ?d) 0 * 0.3))"
      "players s' = (players demo_state)(''bob'' \<mapsto>
          \<lparr>body = 13, score = - 4, cooldown = 0, name = ''P-bob'', color = Hsl 120\<rparr>\<lparr>cooldown := 5000 + 750\<rparr>)"
      "\<forall>t data'. 5000 \<le> t \<and> t < 5000 + 750 \<longrightarrow> shoot ''bob'' data' t s' = Inr (s', [])"
    by auto
  have a: "shoot ''amy'' (Some ?d) 999 demo_state = Inr (demo_state, [])"
    using shoot_cooldown [OF pa, of 999 "Some ?d"] by simp
  have "force (bodies s' 13) = (3, 0)"
    using r(2) by (simp add: f0 js_or_def)
  moreover have "map_option cooldown (players s' ''bob'') = Some 5750"
    using r(3) by simp
  moreover have "shoot ''bob'' (Some ?d) 5749 s' = Inr (s', [])"
    using r(4) by simp
  ultimately show ?thesis
    using pb f0 r(1) a by blast
qed

text \<open>
  Claim C9. For a socket without a session, \<open>shoot\<close> and \<open>disconnect\<close> return the
  state as it is and emit nothing. For a connected player whose cooldown has
  expired, a shoot whose \<open>force\<close> field is missing is accepted and adds the zero
  vector to the body's force; a shoot whose \<open>angle\<close> field is missing is accepted and
  adds (force * 0.3, 0), the force at angle 0. Neither is an error.
\<close>

theorem unknown_player_noop:
  "(players s sid = None \<longrightarrow>
      shoot sid data now s = Inr (s, []) \<and> disconnect sid s = (s, []))
   \<and> (players s sid = Some p \<and> cooldown p \<le> now \<longrightarrow>
      (\<exists>s'. shoot sid (Some \<lparr>force_field = None, angle_field = a\<rparr>) now s
               = Inr (s', [ToSocket sid (CooldownNotify 750)])
          \<and> force (bodies s' (body p)) = force (bodies s (body p)))
      \<and> (\<exists>s'. shoot sid (Some \<lparr>force_field = Some f, angle_field = None\<rparr>) now s
               = Inr (s', [ToSocket sid (CooldownNotify 750)])
          \<and> force (bodies s' (body p)) =
               (fst (force (bodies s (body p))) + f * 0.3, snd (force (bodies s (body p))))))"
  by (auto simp add: shoot_def disconnect_def prims)

text \<open>C9 on the small table: zed has no session, bob has one.\<close>

theorem unknown_player_noop_witness:
  "players demo_state ''zed'' = None
   \<and> shoot ''zed'' None 5000 demo_state = Inr (demo_state, [])
   \<and> disconnect ''zed'' demo_state = (demo_state, [])
   \<and> players demo_state ''bob'' =
       Some \<lparr>body = 13, score = - 4, cooldown = 0, name = ''P-bob'', color = Hsl 120\<rparr>
   \<and> force (bodies demo_state 13) = (0, 0)
   \<and> (\<exists>s'. shoot ''bob'' (Some \<lparr>force_field = None, angle_field = Some 2\<rparr>) 5000 demo_state
               = Inr (s', [ToSocket ''bob'' (CooldownNotify 750)])
          \<and> force (bodies s' 13) = (0, 0))
   \<and> (\<exists>s'. shoot ''bob'' (Some \<lparr>force_field = Some 10, angle_field = None\<rparr>) 5000 demo_state
               = Inr (s', [ToSocket ''bob'' (CooldownNotify 750)])
          \<and> force (bodies s' 13) = (3, 0))"
proof -
  have z: "players demo_state ''zed'' = None"
    by (simp add: demo_state_def)
  have pb: "players demo_state ''bob'' =
     Some \<lparr>body = 13, score = - 4, cooldown = 0, name = ''P-bob'', color = Hsl 120\<rparr>"
    by (simp add: demo_state_fields)
  have f0: "force (bodies demo_state 13) = (0, 0)"
    by (simp add: demo_state_def player_ball_def circle_def)
  let ?pb = "\<lparr>body = 13, score = - 4, cooldown = 0, name = ''P-bob'', color = Hsl 120\<rparr>"
  have "shoot ''zed'' None 5000 demo_state = Inr (demo_state, [])"
     "disconnect ''zed'' demo_state = (demo_state, [])"
    using unknown_player_noop [where s = demo_state and sid = "''zed''" and data = None
        and now = 5000] z
    by simp_all
  moreover have "\<exists>s'. shoot ''bob'' (Some \<lparr>force_field = None, angle_field = Some 2\<rparr>) 5000 demo_state
               = Inr (s', [ToSocket ''bob'' (CooldownNotify 750)])
          \<and> force (bodies s' 13) = (0, 0)"
    using unknown_player_noop [where s = demo_state and sid = "''bob''" and now = 5000
        and p = ?pb and a = "Some 2"] pb f0
    by simp
  moreover have "\<exists>s'. shoot ''bob'' (Some \<lparr>force_field = Some 10, angle_field = None\<rparr>) 5000 demo_state
               = Inr (s', [ToSocket ''bob'' (CooldownNotify 750)])
          \<and> force (bodies s' 13) = (3, 0)"
    using unknown_player_noop [where s = demo_state and sid = "''bob''" and now = 5000
        and p = ?pb and f = 10] pb f0
    by simp
  ultimately show ?thesis
    using z pb f0 by blast
qed

section \<open>The state after world setup, and what \<open>startGame\<close> does to the world\<close>

lemma add_statics_nextId: "nextId (add_statics bs s) = nextId s + length bs"
  by (induction bs arbitrary: s) (simp_all add: new_body_def World_add_def)

lemma upt_front: "[i ..< Suc (i + n)] = i # [Suc i ..< Suc (i + n)]"
  by (rule upt_conv_Cons) simp

lemma add_statics_world:
  "world (add_statics bs s) = world s @ [nextId s ..< nextId s + length bs]"
  by (induction bs arbitrary: s)
     (simp_all add: new_body_def World_add_def upt_front del: upt_Suc)

lemma add_statics_frame:
  "players (add_statics bs s) = players s \<and> scoreBalls (add_statics bs s) = scoreBalls s
   \<and> blackBall (add_statics bs s) = blackBall s \<and> gameActive (add_statics bs s) = gameActive s
   \<and> draws (add_statics bs s) = draws s"
  by (induction bs arbitrary: s) (simp_all add: new_body_def World_add_def)

lemmas add_statics_fields = add_statics_nextId add_statics_world add_statics_frame

lemma add_statics_bodies_old:
  "j < nextId s \<Longrightarrow> bodies (add_statics bs s) j = bodies s j"
  by (induction bs arbitrary: s) (simp_all add: new_body_def World_add_def)

lemma add_statics_bodies_new:
  "j < length bs \<Longrightarrow> bodies (add_statics bs s) (nextId s + j) = bs ! j"
proof (induction bs arbitrary: s j)
  case Nil
  then show ?case by simp
next
  case (Cons b bs)
  show ?case
  proof (cases j)
    case 0
    then show ?thesis
      by (simp add: new_body_def World_add_def add_statics_bodies_old)
  next
    case (Suc j')
    then show ?thesis
      using Cons.prems Cons.IH [of j' "World_add (nextId s) (snd (new_body b s))"]
      by (simp add: new_body_def World_add_def)
  qed
qed

lemma add_statics_bodies_in:
  assumes "nextId s \<le> i" "i < nextId s + length bs"
  shows "bodies (add_statics bs s) i \<in> set bs"
proof -
  have "bodies (add_statics bs s) (nextId s + (i - nextId s)) = bs ! (i - nextId s)"
    using assms by (intro add_statics_bodies_new) simp
  then show ?thesis
    using assms by simp
qed

lemma statics_length: "length walls = 4" "length holes = 6"
  by (simp_all add: walls_def holes_def holePositions_def)

lemma statics_labels: "b \<in> set walls \<Longrightarrow> label b = Wall" "b \<in> set holes \<Longrightarrow> label b = Hole"
  by (auto simp add: walls_def holes_def holePositions_def circle_def rectangle_def)

lemma setup_state_fields:
  "world setup_state = [0 ..< 10]"
  "nextId setup_state = 10"
  "players setup_state = Map.empty"
  "scoreBalls setup_state = []"
  "blackBall setup_state = None"
  "gameActive setup_state = False"
  "draws setup_state = 0"
proof -
  have e: "nextId empty_state = 0" "world empty_state = []" "players empty_state = Map.empty"
    "scoreBalls empty_state = []" "blackBall empty_state = None"
    "gameActive empty_state = False" "draws empty_state = 0"
    by (simp_all add: empty_state_def)
  have "[0 ..< 4] @ [4 ..< 10] = [0 ..< (10::nat)]"
    by (simp add: upt_conv_Cons)
  then show "world setup_state = [0 ..< 10]"
    by (simp add: setup_state_def add_statics_fields statics_length e)
  show "nextId setup_state = 10" "players setup_state = Map.empty"
    "scoreBalls setup_state = []" "blackBall setup_state = None"
    "gameActive setup_state = False" "draws setup_state = 0"
    by (simp_all add: setup_state_def add_statics_fields statics_length e)
qed

lemma setup_state_labels:
  assumes "i \<in> set (world setup_state)"
  shows "label (bodies setup_state i) \<noteq> PlayerBall \<and> label (bodies setup_state i) \<noteq> ScoreBall
    \<and> label (bodies setup_state i) \<noteq> BlackBall"
proof (cases "i < 4")
  case True
  have "bodies setup_state i = bodies (add_statics walls empty_state) i"
    unfolding setup_state_def using True
    by (intro add_statics_bodies_old) (simp add: add_statics_fields statics_length empty_state_def)
  moreover have "bodies (add_statics walls empty_state) i \<in> set walls"
    using True by (intro add_statics_bodies_in) (simp_all add: statics_length empty_state_def)
  ultimately show ?thesis
    by (simp add: statics_labels)
next
  case False
  then have "bodies setup_state i \<in> set holes"
    unfolding setup_state_def using assms
    by (intro add_statics_bodies_in)
       (simp_all add: setup_state_fields add_statics_fields statics_length empty_state_def)
  then show ?thesis
    by (simp add: statics_labels)
qed

lemma setup_state_ok: "state_ok setup_state"
  unfolding state_ok_def using setup_state_labels
  by (auto simp add: setup_state_fields)

lemma clear_balls_world_old:
  assumes "state_ok s" "i \<in> set (world (clear_balls s))"
  shows "i \<in> set (world s) \<and> i < nextId s
     \<and> label (bodies s i) \<noteq> ScoreBall \<and> label (bodies s i) \<noteq> BlackBall"
proof -
  have d: "distinct (world s)"
    using assms(1) unfolding state_ok_def by blast
  have i: "i \<in> set (world s)" "i \<notin> set (scoreBalls s)" "blackBall s \<noteq> Some i"
    using assms(2) by (simp_all add: clear_balls_world [OF d])
  then show ?thesis
    using assms(1) unfolding state_ok_def by blast
qed

lemma clear_balls_world_keeps:
  assumes "state_ok s" "i \<in> set (world s)"
    "label (bodies s i) \<noteq> ScoreBall" "label (bodies s i) \<noteq> BlackBall"
  shows "i \<in> set (world (clear_balls s))"
proof -
  have d: "distinct (world s)"
    using assms(1) unfolding state_ok_def by blast
  have "i \<notin> set (scoreBalls s)" "blackBall s \<noteq> Some i"
    using assms unfolding state_ok_def by blast+
  then show ?thesis
    using assms(2) by (simp add: clear_balls_world [OF d])
qed

lemma startGame_labelled:
  assumes "state_ok s"
  shows "labelled ScoreBall (startGame R n s) = [nextId s ..< nextId s + ball_count n 0]"
    and "labelled BlackBall (startGame R n s) = [nextId s + ball_count n 0]"
proof -
  let ?s' = "startGame R n s"
  let ?new = "[nextId s ..< nextId s + ball_count n 0]"
  have old: "\<And>i. i \<in> set (world (clear_balls s)) \<Longrightarrow>
      label (bodies ?s' i) \<noteq> ScoreBall \<and> label (bodies ?s' i) \<noteq> BlackBall"
    using clear_balls_world_old [OF assms] by (simp add: startGame_bodies_old)
  have new: "\<And>i. i \<in> set ?new \<Longrightarrow> label (bodies ?s' i) = ScoreBall"
    using startGame_bodies_new [of s _ n R] by simp
  have bb: "label (bodies ?s' (nextId s + ball_count n 0)) = BlackBall"
    by (simp add: startGame_fields circle_def)
  have f1: "filter (\<lambda>i. label (bodies ?s' i) = ScoreBall) (world (clear_balls s)) = []"
    "filter (\<lambda>i. label (bodies ?s' i) = BlackBall) (world (clear_balls s)) = []"
    using old by (simp_all add: filter_empty_conv)
  have f2: "filter (\<lambda>i. label (bodies ?s' i) = ScoreBall) ?new = ?new"
    "filter (\<lambda>i. label (bodies ?s' i) = BlackBall) ?new = []"
    using new by (simp_all add: filter_empty_conv filter_id_conv)
  show "labelled ScoreBall ?s' = ?new"
    unfolding labelled_def by (simp add: startGame_fields(7) f1 f2 bb)
  show "labelled BlackBall ?s' = [nextId s + ball_count n 0]"
    unfolding labelled_def by (simp add: startGame_fields(7) f1 f2 bb)
qed

lemma ball_count_clamped:
  "5 \<le> n \<Longrightarrow> n \<le> 50 \<Longrightarrow> 5 \<le> ball_count n 0 \<and> ball_count n 0 \<le> 50"
  unfolding ball_count_def by linarith

lemma startGame_world_set:
  assumes "state_ok s"
  shows "set (world (startGame R n s)) =
     {i \<in> set (world s). label (bodies s i) \<noteq> ScoreBall \<and> label (bodies s i) \<noteq> BlackBall}
     \<union> {nextId s .. nextId s + ball_count n 0}"
proof -
  have "set (world (clear_balls s)) =
     {i \<in> set (world s). label (bodies s i) \<noteq> ScoreBall \<and> label (bodies s i) \<noteq> BlackBall}"
    using clear_balls_world_old [OF assms] clear_balls_world_keeps [OF assms] by blast
  moreover have "set [nextId s ..< nextId s + ball_count n 0] \<union> {nextId s + ball_count n 0}
      = {nextId s .. nextId s + ball_count n 0}"
    by auto
  ultimately show ?thesis
    by (simp add: startGame_fields(7) Un_assoc)
qed

lemma startGame_distinct_world:
  assumes "state_ok s"
  shows "distinct (world (startGame R n s))"
proof -
  have d: "distinct (world s)"
    using assms unfolding state_ok_def by blast
  have "distinct (world (clear_balls s))"
    by (simp add: clear_balls_world [OF d] d)
  moreover have "\<forall>i\<in>set (world (clear_balls s)). i < nextId s"
    using clear_balls_world_old [OF assms] by blast
  ultimately show ?thesis
    by (auto simp add: startGame_fields(7))
qed

lemma startGame_label_new:
  "nextId s \<le> i \<Longrightarrow> i \<le> nextId s + ball_count n 0 \<Longrightarrow>
   label (bodies (startGame R n s) i) =
     (if i = nextId s + ball_count n 0 then BlackBall else ScoreBall)"
  using startGame_bodies_new [of s i n R]
  by (auto simp add: startGame_fields(8) circle_def)

lemma startGame_state_ok:
  assumes "state_ok s"
  shows "state_ok (startGame R n s)"
proof -
  let ?s' = "startGame R n s"
  let ?N = "nextId s"
  let ?k = "ball_count n 0"
  note ws = startGame_world_set [OF assms, of R n]
  have old: "\<And>i. i \<in> set (world s) \<Longrightarrow> i < ?N \<and> bodies ?s' i = bodies s i"
    using assms startGame_bodies_old [of _ s R n] unfolding state_ok_def by blast
  have sk: "\<And>i. i \<in> set (world s) \<Longrightarrow> i < ?N"
    using old by blast
  have new: "\<And>i. ?N \<le> i \<Longrightarrow> i \<le> ?N + ?k \<Longrightarrow>
      label (bodies ?s' i) = (if i = ?N + ?k then BlackBall else ScoreBall)"
    by (rule startGame_label_new)
  have pl: "\<And>k. players ?s' k = map_option (\<lambda>p. p\<lparr>score := 0\<rparr>) (players s k)"
    by (simp add: startGame_fields)
  have a1: "distinct (world ?s')"
    by (rule startGame_distinct_world [OF assms])
  have a2: "distinct (scoreBalls ?s')"
    by (simp add: startGame_fields)
  have a3: "\<forall>i\<in>set (world ?s'). i < nextId ?s'"
    using sk by (fastforce simp add: ws startGame_fields(1-6))
  have a4: "[] \<notin> dom (players ?s')"
    using assms unfolding state_ok_def by (simp add: domIff pl)
  have a5: "\<forall>i\<in>set (world ?s'). label (bodies ?s' i) = PlayerBall \<longrightarrow>
        (\<exists>k p. playerId (bodies ?s' i) = Some k \<and> players ?s' k = Some p \<and> body p = i)"
  proof (intro ballI impI)
    fix i assume i: "i \<in> set (world ?s')" and l: "label (bodies ?s' i) = PlayerBall"
    have "\<not> (?N \<le> i \<and> i \<le> ?N + ?k)"
      using new [of i] l by (auto split: if_splits)
    then have iw: "i \<in> set (world s)"
      using i by (auto simp add: ws)
    then have "label (bodies s i) = PlayerBall"
      using l old by simp
    then obtain k p where "playerId (bodies s i) = Some k" "players s k = Some p" "body p = i"
      using assms iw unfolding state_ok_def by blast
    then have "playerId (bodies ?s' i) = Some k \<and> players ?s' k = Some (p\<lparr>score := 0\<rparr>)
        \<and> body (p\<lparr>score := 0\<rparr>) = i"
      using old [OF iw] by (simp add: pl)
    then show "\<exists>k p. playerId (bodies ?s' i) = Some k \<and> players ?s' k = Some p \<and> body p = i"
      by blast
  qed
  have a6: "\<forall>k p. players ?s' k = Some p \<longrightarrow>
        body p \<in> set (world ?s') \<and> label (bodies ?s' (body p)) = PlayerBall
        \<and> playerId (bodies ?s' (body p)) = Some k"
  proof (intro allI impI)
    fix k p assume "players ?s' k = Some p"
    then obtain q where q: "players s k = Some q" "p = q\<lparr>score := 0\<rparr>"
      by (auto simp add: pl)
    then have b: "body q \<in> set (world s)" "label (bodies s (body q)) = PlayerBall"
      "playerId (bodies s (body q)) = Some k"
      using assms unfolding state_ok_def by blast+
    then show "body p \<in> set (world ?s') \<and> label (bodies ?s' (body p)) = PlayerBall
        \<and> playerId (bodies ?s' (body p)) = Some k"
      using old [OF b(1)] q(2) by (simp add: ws)
  qed
  have a7: "\<forall>i\<in>set (world ?s'). (label (bodies ?s' i) = ScoreBall) = (i \<in> set (scoreBalls ?s'))"
  proof
    fix i assume i: "i \<in> set (world ?s')"
    show "(label (bodies ?s' i) = ScoreBall) = (i \<in> set (scoreBalls ?s'))"
    proof (cases "?N \<le> i")
      case True
      have "i \<notin> set (world s)"
        using sk [of i] True by auto
      then have le: "i \<le> ?N + ?k"
        using i by (auto simp add: ws)
      show ?thesis
        using True le new [OF True le] by (auto simp add: startGame_fields(1-6))
    next
      case False
      then show ?thesis
        using i old [of i] by (auto simp add: ws startGame_fields(1-6))
    qed
  qed
  have a8: "set (scoreBalls ?s') \<subseteq> set (world ?s')"
    by (auto simp add: ws startGame_fields(1-6))
  have a9: "\<forall>i\<in>set (world ?s'). (label (bodies ?s' i) = BlackBall) = (blackBall ?s' = Some i)"
  proof
    fix i assume i: "i \<in> set (world ?s')"
    show "(label (bodies ?s' i) = BlackBall) = (blackBall ?s' = Some i)"
    proof (cases "?N \<le> i")
      case True
      have "i \<notin> set (world s)"
        using sk [of i] True by auto
      then have le: "i \<le> ?N + ?k"
        using i by (auto simp add: ws)
      show ?thesis
        using True le new [OF True le] by (auto simp add: startGame_fields(1-6))
    next
      case False
      then show ?thesis
        using i old [of i] by (auto simp add: ws startGame_fields(1-6))
    qed
  qed
  have a10: "\<forall>i. blackBall ?s' = Some i \<longrightarrow> i \<in> set (world ?s')"
    by (auto simp add: ws startGame_fields(1-6))
  have a11: "gameActive ?s' \<longrightarrow> blackBall ?s' \<noteq> None"
    by (simp add: startGame_fields)
  show ?thesis
    unfolding state_ok_def using a1 a2 a3 a4 a5 a6 a7 a8 a9 a10 a11 by blast
qed

section \<open>Starting a game\<close>

text \<open>
  Claim C2, as the code has it. A start-game request with a payload takes
  \<open>ballCount || 15\<close>, so the default 15 replaces a count that is absent or equal to 0
  and no other: a negative count is kept and then raised to 5 by the clamp. With
  n = min (max (ballCount || 15) 5) 50 the handler broadcasts n and the game has the
  least natural number of ScoreBalls that is not below n, in the \<open>scoreBalls\<close> array
  and in the world alike; that number lies between 5 and 50, and for an integer
  count other than 0 it is the clamped count itself.
\<close>

theorem startGame_handler_count:
  assumes "state_ok s"
  shows "\<exists>s' n. n = min (max (case ballCount d of None \<Rightarrow> 15
                                  | Some v \<Rightarrow> if v = 0 then 15 else v) 5) 50
    \<and> startGame_handler R (Some d) s = Inr (s', [Broadcast (GameStarted n)])
    \<and> length (scoreBalls s') = nat \<lceil>n\<rceil>
    \<and> labelled ScoreBall s' = scoreBalls s'
    \<and> 5 \<le> length (scoreBalls s') \<and> length (scoreBalls s') \<le> 50
    \<and> (\<forall>z::int. ballCount d = Some (of_int z) \<and> z \<noteq> 0 \<longrightarrow>
          int (length (scoreBalls s')) = min (max z 5) 50)"
proof -
  define n where "n = min (max (case ballCount d of None \<Rightarrow> 15
                                  | Some v \<Rightarrow> if v = 0 then 15 else v) 5) (50::real)"
  define s' where "s' = startGame R n s"
  have h: "startGame_handler R (Some d) s = Inr (s', [Broadcast (GameStarted n)])"
    by (simp add: startGame_handler_def js_or_def n_def s'_def Let_def)
  have len: "length (scoreBalls s') = nat \<lceil>n\<rceil>"
    by (simp add: s'_def startGame_fields ball_count_def)
  have lab: "labelled ScoreBall s' = scoreBalls s'"
    by (simp add: s'_def startGame_labelled [OF assms] startGame_fields)
  have rng: "5 \<le> n" "n \<le> 50"
    by (simp_all add: n_def)
  have bnd: "5 \<le> length (scoreBalls s')" "length (scoreBalls s') \<le> 50"
    using ball_count_clamped [OF rng] by (simp_all add: len ball_count_def)
  have int: "\<forall>z::int. ballCount d = Some (of_int z) \<and> z \<noteq> 0 \<longrightarrow>
          int (length (scoreBalls s')) = min (max z 5) 50"
  proof (intro allI impI)
    fix z :: int
    assume a: "ballCount d = Some (of_int z) \<and> z \<noteq> 0"
    then have "n = of_int (min (max z 5) 50)"
      by (simp add: n_def)
    then have "\<lceil>n\<rceil> = min (max z 5) 50"
      by (simp only: ceiling_of_int)
    then have "int (nat \<lceil>n\<rceil>) = min (max z 5) 50"
      by linarith
    then show "int (length (scoreBalls s')) = min (max z 5) 50"
      by (simp only: len)
  qed
  show ?thesis
    using h len lab bnd int n_def by blast
qed

text \<open>C2 at two requests on the state after world setup: a count of 1000 gives 50
  balls, a missing count gives 15.\<close>

theorem startGame_handler_count_witness:
  "state_ok setup_state
   \<and> (\<exists>s'. startGame_handler (const_rng (1/2)) (Some \<lparr>ballCount = Some 1000\<rparr>) setup_state
              = Inr (s', [Broadcast (GameStarted 50)])
          \<and> length (scoreBalls s') = 50 \<and> labelled ScoreBall s' = scoreBalls s')
   \<and> (\<exists>s'. startGame_handler (const_rng (1/2)) (Some \<lparr>ballCount = None\<rparr>) setup_state
              = Inr (s', [Broadcast (GameStarted 15)])
          \<and> length (scoreBalls s') = 15 \<and> labelled ScoreBall s' = scoreBalls s')"
proof -
  have "\<exists>s'. startGame_handler (const_rng (1/2)) (Some \<lparr>ballCount = Some 1000\<rparr>) setup_state
              = Inr (s', [Broadcast (GameStarted 50)])
          \<and> length (scoreBalls s') = 50 \<and> labelled ScoreBall s' = scoreBalls s'"
    using startGame_handler_count [OF setup_state_ok, of "\<lparr>ballCount = Some 1000\<rparr>" "const_rng (1/2)"]
    by auto
  moreover have "\<exists>s'. startGame_handler (const_rng (1/2)) (Some \<lparr>ballCount = None\<rparr>) setup_state
              = Inr (s', [Broadcast (GameStarted 15)])
          \<and> length (scoreBalls s') = 15 \<and> labelled ScoreBall s' = scoreBalls s'"
    using startGame_handler_count [OF setup_state_ok, of "\<lparr>ballCount = None\<rparr>" "const_rng (1/2)"]
    by auto
  ultimately show ?thesis
    using setup_state_ok by blast
qed

text \<open>C2 as stated fails: the request with \<open>ballCount = -3\<close> yields 5 ScoreBalls, not
  the 15 of the default.\<close>

theorem negative_ballCount_counterexample:
  "length (scoreBalls (fst (projr
      (startGame_handler (const_rng (1/2)) (Some \<lparr>ballCount = Some (- 3)\<rparr>) setup_state)))) = 5
   \<and> length (scoreBalls (fst (projr
      (startGame_handler (const_rng (1/2)) (Some \<lparr>ballCount = Some (- 3)\<rparr>) setup_state)))) \<noteq> 15"
  by (simp add: startGame_handler_def js_or_def startGame_fields ball_count_def)

text \<open>
  Claim C10. The state in which the module finishes loading is the result of
  \<open>startGame\<close> with 15 on the state after world setup: the game is active, there are
  exactly 15 ScoreBalls in the array and in the world, and the world has one
  BlackBall, the one the variable \<open>blackBall\<close> refers to, at the table centre
  (800, 450); no player exists yet. The call is made on \<open>startGame\<close> itself, which
  does not clamp its argument: called with 3 or with 60 it creates 3 or 60 balls,
  where the handler would create 5 or 50.
\<close>

theorem initial_state_started:
  "gameActive (initial_state R)
   \<and> length (scoreBalls (initial_state R)) = 15
   \<and> labelled ScoreBall (initial_state R) = scoreBalls (initial_state R)
   \<and> blackBall (initial_state R) = Some 25
   \<and> labelled BlackBall (initial_state R) = [25]
   \<and> position (bodies (initial_state R) 25) = (800, 450)
   \<and> players (initial_state R) = Map.empty
   \<and> initial_state R = startGame R 15 setup_state
   \<and> length (scoreBalls (startGame R 3 setup_state)) = 3
   \<and> length (scoreBalls (startGame R 60 setup_state)) = 60"
proof -
  have c: "ball_count 15 0 = 15" "ball_count 3 0 = 3" "ball_count 60 0 = 60"
    by (simp_all add: ball_count_def)
  have p: "players (initial_state R) = Map.empty"
    by (rule ext) (simp add: initial_state_def startGame_fields setup_state_fields)
  have b: "position (bodies (initial_state R) 25) = (800, 450)"
    using startGame_fields(8) [of R 15 setup_state]
    by (simp add: initial_state_def setup_state_fields c circle_def)
  show ?thesis
    using p b startGame_labelled [OF setup_state_ok, of R 15]
    by (simp add: initial_state_def startGame_fields setup_state_fields c)
qed

text \<open>
  Claim C8. \<open>startGame\<close> in any state the server can be in, with any argument: every
  ScoreBall of the old \<open>scoreBalls\<close> array and the old black ball are gone from the
  world; the ScoreBalls of the world are the new array, all of them new bodies with
  \<open>lastTouchedBy\<close> null; the world has exactly one BlackBall, a new body at the
  table centre, and \<open>blackBall\<close> refers to it. Every player record is the old one
  with score 0, every player's body is still in the world and is unchanged, as is
  every other body that is neither ScoreBall nor BlackBall. The game is active and
  the state is again one the server can be in.
\<close>

theorem startGame_frame:
  assumes "state_ok s"
  shows "\<exists>s'. s' = startGame R n s \<and> gameActive s' \<and> state_ok s'
    \<and> (\<forall>i\<in>set (scoreBalls s). i \<notin> set (world s'))
    \<and> (\<forall>i. blackBall s = Some i \<longrightarrow> i \<notin> set (world s'))
    \<and> labelled ScoreBall s' = scoreBalls s' \<and> length (scoreBalls s') = nat \<lceil>n\<rceil>
    \<and> (\<forall>i\<in>set (scoreBalls s'). i \<notin> set (world s) \<and> lastTouchedBy (bodies s' i) = None)
    \<and> (\<exists>bb. blackBall s' = Some bb \<and> labelled BlackBall s' = [bb] \<and> bb \<notin> set (world s)
          \<and> position (bodies s' bb) = (800, 450) \<and> velocity (bodies s' bb) = (0, 0)
          \<and> lastTouchedBy (bodies s' bb) = None)
    \<and> (\<forall>k. players s' k = map_option (\<lambda>p. p\<lparr>score := 0\<rparr>) (players s k))
    \<and> (\<forall>k p. players s k = Some p \<longrightarrow>
          body p \<in> set (world s') \<and> bodies s' (body p) = bodies s (body p))
    \<and> (\<forall>i\<in>set (world s). label (bodies s i) \<noteq> ScoreBall \<and> label (bodies s i) \<noteq> BlackBall \<longrightarrow>
          i \<in> set (world s') \<and> bodies s' i = bodies s i)"
proof -
  let ?s' = "startGame R n s"
  let ?N = "nextId s"
  let ?k = "ball_count n 0"
  note ws = startGame_world_set [OF assms, of R n]
  have old: "\<And>i. i \<in> set (world s) \<Longrightarrow> i < ?N \<and> bodies ?s' i = bodies s i"
    using assms startGame_bodies_old [of _ s R n] unfolding state_ok_def by blast
  have c1: "\<forall>i\<in>set (scoreBalls s). i \<notin> set (world ?s')"
  proof
    fix i assume "i \<in> set (scoreBalls s)"
    then have "i \<in> set (world s)" "label (bodies s i) = ScoreBall"
      using assms unfolding state_ok_def by blast+
    then show "i \<notin> set (world ?s')"
      using old [of i] by (simp add: ws)
  qed
  have c2: "\<forall>i. blackBall s = Some i \<longrightarrow> i \<notin> set (world ?s')"
  proof (intro allI impI)
    fix i assume "blackBall s = Some i"
    then have "i \<in> set (world s)" "label (bodies s i) = BlackBall"
      using assms unfolding state_ok_def by blast+
    then show "i \<notin> set (world ?s')"
      using old [of i] by (simp add: ws)
  qed
  have c3: "labelled ScoreBall ?s' = scoreBalls ?s'" "length (scoreBalls ?s') = nat \<lceil>n\<rceil>"
    by (simp_all add: startGame_labelled [OF assms] startGame_fields ball_count_def)
  have c4: "\<forall>i\<in>set (scoreBalls ?s'). i \<notin> set (world s) \<and> lastTouchedBy (bodies ?s' i) = None"
  proof
    fix i assume "i \<in> set (scoreBalls ?s')"
    then have i: "?N \<le> i" "i < ?N + ?k"
      by (simp_all add: startGame_fields)
    then have "i \<notin> set (world s)"
      using old [of i] by auto
    then show "i \<notin> set (world s) \<and> lastTouchedBy (bodies ?s' i) = None"
      using startGame_bodies_new [OF i, of R] by simp
  qed
  have "?N + ?k \<notin> set (world s)"
    using old [of "?N + ?k"] by auto
  then have c5: "\<exists>bb. blackBall ?s' = Some bb \<and> labelled BlackBall ?s' = [bb] \<and> bb \<notin> set (world s)
          \<and> position (bodies ?s' bb) = (800, 450) \<and> velocity (bodies ?s' bb) = (0, 0)
          \<and> lastTouchedBy (bodies ?s' bb) = None"
    by (simp add: startGame_labelled [OF assms] startGame_fields circle_def)
  have c6: "\<forall>k. players ?s' k = map_option (\<lambda>p. p\<lparr>score := 0\<rparr>) (players s k)"
    by (simp add: startGame_fields)
  have c8: "\<forall>i\<in>set (world s). label (bodies s i) \<noteq> ScoreBall \<and> label (bodies s i) \<noteq> BlackBall \<longrightarrow>
          i \<in> set (world ?s') \<and> bodies ?s' i = bodies s i"
    using old by (simp add: ws)
  have c7: "\<forall>k p. players s k = Some p \<longrightarrow>
          body p \<in> set (world ?s') \<and> bodies ?s' (body p) = bodies s (body p)"
  proof (intro allI impI)
    fix k p assume "players s k = Some p"
    then have "body p \<in> set (world s)" "label (bodies s (body p)) = PlayerBall"
      using assms unfolding state_ok_def by blast+
    then show "body p \<in> set (world ?s') \<and> bodies ?s' (body p) = bodies s (body p)"
      using c8 by simp
  qed
  show ?thesis
    using c1 c2 c3 c4 c5 c6 c7 c8 startGame_state_ok [OF assms, of R n]
    by (simp add: startGame_fields(4))
qed

text \<open>C8 on the small table, mid-match: a restart with 5 balls.\<close>

theorem startGame_frame_witness:
  "state_ok demo_state
   \<and> scoreBalls demo_state = [11] \<and> blackBall demo_state = Some 14
   \<and> map_option score (players demo_state ''amy'') = Some 3
   \<and> gameActive (startGame (const_rng (1/2)) 5 demo_state)
   \<and> 11 \<notin> set (world (startGame (const_rng (1/2)) 5 demo_state))
   \<and> 14 \<notin> set (world (startGame (const_rng (1/2)) 5 demo_state))
   \<and> length (scoreBalls (startGame (const_rng (1/2)) 5 demo_state)) = 5
   \<and> length (labelled BlackBall (startGame (const_rng (1/2)) 5 demo_state)) = 1
   \<and> players (startGame (const_rng (1/2)) 5 demo_state) ''amy'' =
       Some \<lparr>body = 12, score = 0, cooldown = 1000, name = ''P-amy'', color = Hsl 120\<rparr>
   \<and> 12 \<in> set (world (startGame (const_rng (1/2)) 5 demo_state))
   \<and> bodies (startGame (const_rng (1/2)) 5 demo_state) 12 = bodies demo_state 12"
proof -
  let ?s' = "startGame (const_rng (1/2)) 5 demo_state"
  have f: "scoreBalls demo_state = [11]" "blackBall demo_state = Some 14"
    by (simp_all add: demo_state_def)
  have a: "players demo_state ''amy'' =
     Some \<lparr>body = 12, score = 3, cooldown = 1000, name = ''P-amy'', color = Hsl 120\<rparr>"
    by (simp add: demo_state_fields)
  from startGame_frame [OF demo_state_ok, of "const_rng (1/2)" 5] have
    r: "gameActive ?s'"
      "\<forall>i\<in>set (scoreBalls demo_state). i \<notin> set (world ?s')"
      "\<forall>i. blackBall demo_state = Some i \<longrightarrow> i \<notin> set (world ?s')"
      "length (scoreBalls ?s') = nat \<lceil>5::real\<rceil>"
      "\<exists>bb. blackBall ?s' = Some bb \<and> labelled BlackBall ?s' = [bb]"
      "\<forall>k. players ?s' k = map_option (\<lambda>p. p\<lparr>score := 0\<rparr>) (players demo_state k)"
      "\<forall>k p. players demo_state k = Some p \<longrightarrow>
          body p \<in> set (world ?s') \<and> bodies ?s' (body p) = bodies demo_state (body p)"
    by auto
  have "12 \<in> set (world ?s') \<and> bodies ?s' 12 = bodies demo_state 12"
    using r(7) a by fastforce
  moreover have "length (labelled BlackBall ?s') = 1"
    using r(5) by auto
  moreover have "players ?s' ''amy'' =
       Some \<lparr>body = 12, score = 0, cooldown = 1000, name = ''P-amy'', color = Hsl 120\<rparr>"
    using r(6) a by simp
  ultimately show ?thesis
    using demo_state_ok f a r(1-4) by simp
qed

section \<open>Sessions\<close>

lemma create_player_fields:
  "world (snd (create_player R sid s)) = world s @ [nextId s]"
  "nextId (snd (create_player R sid s)) = Suc (nextId s)"
  "players (snd (create_player R sid s)) =
     (players s)(sid \<mapsto> \<lparr>body = nextId s, score = 0, cooldown = 0,
                          name = ''P-'' @ take 4 sid, color = Hsl \<lfloor>R (draws s) * 360\<rfloor>\<rparr>)"
  "fst (create_player R sid s) = Hsl \<lfloor>R (draws s) * 360\<rfloor>"
  "scoreBalls (snd (create_player R sid s)) = scoreBalls s"
  "blackBall (snd (create_player R sid s)) = blackBall s"
  "gameActive (snd (create_player R sid s)) = gameActive s"
  "draws (snd (create_player R sid s)) = draws s + 3"
  "j \<noteq> nextId s \<Longrightarrow> bodies (snd (create_player R sid s)) j = bodies s j"
  "label (bodies (snd (create_player R sid s)) (nextId s)) = PlayerBall"
  "playerId (bodies (snd (create_player R sid s)) (nextId s)) = Some sid"
  "lastTouchedBy (bodies (snd (create_player R sid s)) (nextId s)) = None"
  "position (bodies (snd (create_player R sid s)) (nextId s)) =
     (R (Suc (draws s)) * 1400 + 100, R (Suc (Suc (draws s))) * 700 + 100)"
  by (simp_all add: create_player_def prims circle_def)

lemma filter_eq_singleton:
  "distinct w \<Longrightarrow> x \<in> set w \<Longrightarrow> filter (\<lambda>i. i = x) w = [x]"
  by (induction w) (auto simp add: filter_empty_conv)

lemma playerBalls_of_connected:
  assumes "state_ok s" "players s sid = Some p"
  shows "playerBalls_of sid s = [body p]"
proof -
  have b: "body p \<in> set (world s)" "label (bodies s (body p)) = PlayerBall"
    "playerId (bodies s (body p)) = Some sid" "distinct (world s)"
    using assms unfolding state_ok_def by blast+
  have "\<And>i. i \<in> set (world s) \<Longrightarrow>
      (label (bodies s i) = PlayerBall \<and> playerId (bodies s i) = Some sid) = (i = body p)"
  proof -
    fix i assume i: "i \<in> set (world s)"
    show "(label (bodies s i) = PlayerBall \<and> playerId (bodies s i) = Some sid) = (i = body p)"
    proof
      assume a: "label (bodies s i) = PlayerBall \<and> playerId (bodies s i) = Some sid"
      then obtain k q where "playerId (bodies s i) = Some k" "players s k = Some q" "body q = i"
        using assms(1) i unfolding state_ok_def by blast
      then show "i = body p"
        using a assms(2) by simp
    next
      assume "i = body p"
      then show "label (bodies s i) = PlayerBall \<and> playerId (bodies s i) = Some sid"
        using b by simp
    qed
  qed
  then have "playerBalls_of sid s = filter (\<lambda>i. i = body p) (world s)"
    unfolding playerBalls_of_def by (intro filter_cong) simp_all
  then show ?thesis
    using b by (simp add: filter_eq_singleton)
qed

lemma playerBalls_of_unknown:
  assumes "state_ok s" "players s sid = None"
  shows "playerBalls_of sid s = []"
proof -
  have "\<And>i. i \<in> set (world s) \<Longrightarrow>
      \<not> (label (bodies s i) = PlayerBall \<and> playerId (bodies s i) = Some sid)"
  proof
    fix i assume i: "i \<in> set (world s)"
      and a: "label (bodies s i) = PlayerBall \<and> playerId (bodies s i) = Some sid"
    then obtain k q where "playerId (bodies s i) = Some k" "players s k = Some q"
      using assms(1) unfolding state_ok_def by blast
    then show False
      using a assms(2) by simp
  qed
  then show ?thesis
    unfolding playerBalls_of_def by (simp add: filter_empty_conv)
qed

lemma playerBalls_of_created:
  assumes "state_ok s" "players s sid = None"
  shows "playerBalls_of sid (snd (create_player R sid s)) = [nextId s]"
proof -
  let ?s1 = "snd (create_player R sid s)"
  have lt: "\<And>i. i \<in> set (world s) \<Longrightarrow> i \<noteq> nextId s"
    using assms(1) unfolding state_ok_def by blast
  have "filter (\<lambda>i. label (bodies ?s1 i) = PlayerBall \<and> playerId (bodies ?s1 i) = Some sid) (world s)
      = filter (\<lambda>i. label (bodies s i) = PlayerBall \<and> playerId (bodies s i) = Some sid) (world s)"
    using lt by (intro filter_cong) (simp_all add: create_player_fields)
  also have "\<dots> = []"
    using playerBalls_of_unknown [OF assms] unfolding playerBalls_of_def .
  finally show ?thesis
    unfolding playerBalls_of_def by (simp add: create_player_fields)
qed

text \<open>
  Claim C7. \<open>joinGame\<close> for a socket, in any state the server can be in, leads to a
  state in which a second \<open>joinGame\<close> for that socket changes nothing and emits
  nothing. In that state the socket has one player record, and the world has
  exactly one PlayerBall with that socket's \<open>playerId\<close>, the body the record refers
  to. When the first call created the session, the record has score 0 and cooldown
  expiry 0, a time that has passed, and the sender got the \<open>joined\<close> message; when
  the session was there already, the first call is a no-op too.
\<close>

theorem joinGame_idempotent:
  assumes "state_ok s"
  shows "\<exists>s1 out1 p. joinGame R sid s = (s1, out1) \<and> joinGame R sid s1 = (s1, [])
    \<and> players s1 sid = Some p \<and> playerBalls_of sid s1 = [body p]
    \<and> (players s sid = None \<longrightarrow>
          score p = 0 \<and> cooldown p = 0 \<and> out1 = [ToSocket sid (Joined sid (color p))])
    \<and> (players s sid \<noteq> None \<longrightarrow> s1 = s \<and> out1 = [])"
proof (cases "players s sid")
  case None
  let ?s1 = "snd (create_player R sid s)"
  let ?p = "\<lparr>body = nextId s, score = 0, cooldown = 0,
             name = ''P-'' @ take 4 sid, color = Hsl \<lfloor>R (draws s) * 360\<rfloor>\<rparr>"
  have j: "joinGame R sid s = (?s1, [ToSocket sid (Joined sid (color ?p))])"
    using None by (simp add: joinGame_def case_prod_beta create_player_fields)
  have p: "players ?s1 sid = Some ?p"
    by (simp add: create_player_fields)
  then have j2: "joinGame R sid ?s1 = (?s1, [])"
    by (simp add: joinGame_def)
  have "playerBalls_of sid ?s1 = [body ?p]"
    using playerBalls_of_created [OF assms None, of R] by simp
  then show ?thesis
    using None j j2 p by simp
next
  case (Some p)
  then have "joinGame R sid s = (s, [])"
    by (simp add: joinGame_def)
  then show ?thesis
    using Some playerBalls_of_connected [OF assms Some] by simp
qed

text \<open>C7 on the small table: cat joins twice, and amy, who has a session, joins
  again.\<close>

theorem joinGame_idempotent_witness:
  "state_ok demo_state \<and> players demo_state ''cat'' = None
   \<and> (\<exists>s1 c. joinGame (const_rng (1/2)) ''cat'' demo_state = (s1, [ToSocket ''cat'' (Joined ''cat'' c)])
        \<and> joinGame (const_rng (1/2)) ''cat'' s1 = (s1, [])
        \<and> length (playerBalls_of ''cat'' s1) = 1
        \<and> map_option score (players s1 ''cat'') = Some 0
        \<and> map_option cooldown (players s1 ''cat'') = Some 0)
   \<and> joinGame (const_rng (1/2)) ''amy'' demo_state = (demo_state, [])
   \<and> length (playerBalls_of ''amy'' demo_state) = 1"
proof -
  have n: "players demo_state ''cat'' = None"
    by (simp add: demo_state_def)
  have a: "players demo_state ''amy'' \<noteq> None"
    by (simp add: demo_state_fields)
  from joinGame_idempotent [OF demo_state_ok, of "const_rng (1/2)" "''cat''"] n
  have 1: "\<exists>s1 c. joinGame (const_rng (1/2)) ''cat'' demo_state = (s1, [ToSocket ''cat'' (Joined ''cat'' c)])
        \<and> joinGame (const_rng (1/2)) ''cat'' s1 = (s1, [])
        \<and> length (playerBalls_of ''cat'' s1) = 1
        \<and> map_option score (players s1 ''cat'') = Some 0
        \<and> map_option cooldown (players s1 ''cat'') = Some 0"
    by auto
  from joinGame_idempotent [OF demo_state_ok, of "const_rng (1/2)" "''amy''"] a
  have 2: "joinGame (const_rng (1/2)) ''amy'' demo_state = (demo_state, [])
     \<and> length (playerBalls_of ''amy'' demo_state) = 1"
    by auto
  show ?thesis
    using demo_state_ok n 1 2 by blast
qed

section \<open>Every state the server runs through is well-formed\<close>

lemma same_shape_players:
  assumes "same_shape s s'"
  shows "(players s' k = None) = (players s k = None)"
    and "players s' k = Some p' \<Longrightarrow> \<exists>p. players s k = Some p \<and> body p = body p'"
    and "players s k = Some p \<Longrightarrow> \<exists>p'. players s' k = Some p' \<and> body p' = body p"
proof -
  have m: "map_option body (players s' k) = map_option body (players s k)"
    using assms unfolding same_shape_def by blast
  show "(players s' k = None) = (players s k = None)"
    using m by (cases "players s' k"; cases "players s k") simp_all
  show "players s' k = Some p' \<Longrightarrow> \<exists>p. players s k = Some p \<and> body p = body p'"
    using m by (cases "players s k") simp_all
  show "players s k = Some p \<Longrightarrow> \<exists>p'. players s' k = Some p' \<and> body p' = body p"
    using m by (cases "players s' k") simp_all
qed

lemma state_ok_same_shape:
  assumes "state_ok s" "same_shape s s'"
  shows "state_ok s'"
proof -
  have f: "world s' = world s" "nextId s' = nextId s" "scoreBalls s' = scoreBalls s"
    "blackBall s' = blackBall s" "gameActive s' = gameActive s"
    "\<And>i. label (bodies s' i) = label (bodies s i)"
    "\<And>i. playerId (bodies s' i) = playerId (bodies s i)"
    using assms(2) unfolding same_shape_def by blast+
  note pl = same_shape_players [OF assms(2)]
  have a4: "[] \<notin> dom (players s')"
    using assms(1) pl(1) [of "[]"] unfolding state_ok_def by (simp add: domIff)
  have a5: "\<forall>i\<in>set (world s'). label (bodies s' i) = PlayerBall \<longrightarrow>
        (\<exists>k p. playerId (bodies s' i) = Some k \<and> players s' k = Some p \<and> body p = i)"
  proof (intro ballI impI)
    fix i assume "i \<in> set (world s')" "label (bodies s' i) = PlayerBall"
    then obtain k p where "playerId (bodies s i) = Some k" "players s k = Some p" "body p = i"
      using assms(1) unfolding state_ok_def f by blast
    then show "\<exists>k p. playerId (bodies s' i) = Some k \<and> players s' k = Some p \<and> body p = i"
      using pl(3) [of k p] by (auto simp add: f)
  qed
  have a6: "\<forall>k p. players s' k = Some p \<longrightarrow>
        body p \<in> set (world s') \<and> label (bodies s' (body p)) = PlayerBall
        \<and> playerId (bodies s' (body p)) = Some k"
  proof (intro allI impI)
    fix k p assume "players s' k = Some p"
    then obtain q where q: "players s k = Some q" "body q = body p"
      using pl(2) by blast
    then have "body q \<in> set (world s) \<and> label (bodies s (body q)) = PlayerBall
        \<and> playerId (bodies s (body q)) = Some k"
      using assms(1) unfolding state_ok_def by blast
    then show "body p \<in> set (world s') \<and> label (bodies s' (body p)) = PlayerBall
        \<and> playerId (bodies s' (body p)) = Some k"
      using q(2) by (simp add: f)
  qed
  show ?thesis
    using assms(1) a4 a5 a6 unfolding state_ok_def f by blast
qed

lemma same_shape_refl: "same_shape s s"
  by (simp add: same_shape_def)

lemma handleHoleCollision_shape:
  "handleHoleCollision R ball s = Inr s' \<Longrightarrow> same_shape s s'"
  unfolding same_shape_def
  by (auto simp add: handleHoleCollision_def respawnScoreBall_def respawnPlayer_def
        respawnBlackBall_def prims split: if_splits option.splits)

lemma set_lastTouchedBy_shape: "same_shape s (set_lastTouchedBy i v s)"
  by (simp add: same_shape_def prims)

lemma handlePair_shape:
  "handlePair R pr s = Inr s' \<Longrightarrow> same_shape s s'"
  by (auto simp add: handlePair_def Let_def set_lastTouchedBy_shape same_shape_refl
        split: if_splits dest: handleHoleCollision_shape)

lemma handlePair_total:
  assumes "state_ok s" "fst pr \<in> set (world s)" "snd pr \<in> set (world s)"
  shows "\<exists>s'. handlePair R pr s = Inr s'"
proof -
  have bb: "\<And>i. i \<in> set (world s) \<Longrightarrow> label (bodies s i) = BlackBall \<Longrightarrow> blackBall s = Some i"
    using assms(1) unfolding state_ok_def by blast
  have hh: "\<And>i. i \<in> set (world s) \<Longrightarrow> \<exists>s'. handleHoleCollision R i s = Inr s'"
  proof -
    fix i assume iw: "i \<in> set (world s)"
    show "\<exists>s'. handleHoleCollision R i s = Inr s'"
    proof (cases "label (bodies s i) = BlackBall")
      case True
      then have "blackBall s = Some i"
        using bb iw by blast
      then show ?thesis
        using True
        by (auto simp add: handleHoleCollision_def respawnBlackBall_def prims split: option.splits)
    next
      case False
      then show ?thesis
        by (simp add: handleHoleCollision_def Let_def)
    qed
  qed
  show ?thesis
    using hh [OF assms(2)] hh [OF assms(3)] by (auto simp add: handlePair_def Let_def)
qed

lemma collisionStart_ok:
  assumes "state_ok s" "\<forall>pr\<in>set prs. fst pr \<in> set (world s) \<and> snd pr \<in> set (world s)"
  shows "\<exists>s'. collisionStart R prs s = Inr s' \<and> state_ok s' \<and> same_shape s s'"
  using assms
proof (induction prs arbitrary: s)
  case Nil
  then show ?case by (simp add: same_shape_refl)
next
  case (Cons pr prs)
  obtain s1 where s1: "handlePair R pr s = Inr s1"
    using handlePair_total [of s pr R] Cons.prems by auto
  have sh: "same_shape s s1"
    by (rule handlePair_shape [OF s1])
  have ok: "state_ok s1"
    by (rule state_ok_same_shape [OF Cons.prems(1) sh])
  have w: "world s1 = world s"
    using sh unfolding same_shape_def by blast
  obtain s' where s': "collisionStart R prs s1 = Inr s'" "state_ok s'" "same_shape s1 s'"
    using Cons.IH [OF ok] Cons.prems(2) w by auto
  have "same_shape s s'"
    using sh s'(3) unfolding same_shape_def by simp
  then show ?case
    using s1 s'(1,2) by simp
qed

lemma shoot_shape: "shoot sid data now s = Inr (s', out) \<Longrightarrow> same_shape s s'"
  unfolding same_shape_def
  by (auto simp add: shoot_def prims split: option.splits if_splits)

lemma state_okD:
  assumes "state_ok s"
  shows "distinct (world s)" and "distinct (scoreBalls s)"
    and "\<And>i. i \<in> set (world s) \<Longrightarrow> i < nextId s"
    and "players s [] = None"
    and "\<And>i. i \<in> set (world s) \<Longrightarrow> label (bodies s i) = PlayerBall \<Longrightarrow>
           \<exists>k p. playerId (bodies s i) = Some k \<and> players s k = Some p \<and> body p = i"
    and "\<And>k p. players s k = Some p \<Longrightarrow>
           body p \<in> set (world s) \<and> label (bodies s (body p)) = PlayerBall
           \<and> playerId (bodies s (body p)) = Some k"
    and "\<And>i. i \<in> set (world s) \<Longrightarrow>
           (label (bodies s i) = ScoreBall) = (i \<in> set (scoreBalls s))"
    and "set (scoreBalls s) \<subseteq> set (world s)"
    and "\<And>i. i \<in> set (world s) \<Longrightarrow>
           (label (bodies s i) = BlackBall) = (blackBall s = Some i)"
    and "\<And>i. blackBall s = Some i \<Longrightarrow> i \<in> set (world s)"
    and "gameActive s \<Longrightarrow> blackBall s \<noteq> None"
proof -
  show "distinct (world s)" "distinct (scoreBalls s)" "set (scoreBalls s) \<subseteq> set (world s)"
    using assms unfolding state_ok_def by blast+
  show "players s [] = None"
    using assms unfolding state_ok_def by (simp add: domIff)
  show "\<And>i. i \<in> set (world s) \<Longrightarrow> i < nextId s"
    using assms unfolding state_ok_def by blast
  show "\<And>i. i \<in> set (world s) \<Longrightarrow> label (bodies s i) = PlayerBall \<Longrightarrow>
           \<exists>k p. playerId (bodies s i) = Some k \<and> players s k = Some p \<and> body p = i"
    using assms unfolding state_ok_def by blast
  show "\<And>k p. players s k = Some p \<Longrightarrow>
           body p \<in> set (world s) \<and> label (bodies s (body p)) = PlayerBall
           \<and> playerId (bodies s (body p)) = Some k"
    using assms unfolding state_ok_def by blast
  show "\<And>i. i \<in> set (world s) \<Longrightarrow>
           (label (bodies s i) = ScoreBall) = (i \<in> set (scoreBalls s))"
    using assms unfolding state_ok_def by blast
  show "\<And>i. i \<in> set (world s) \<Longrightarrow>
           (label (bodies s i) = BlackBall) = (blackBall s = Some i)"
    using assms unfolding state_ok_def by blast
  show "\<And>i. blackBall s = Some i \<Longrightarrow> i \<in> set (world s)"
    using assms unfolding state_ok_def by blast
  show "gameActive s \<Longrightarrow> blackBall s \<noteq> None"
    using assms unfolding state_ok_def by blast
qed

lemma create_player_state_ok:
  assumes "state_ok s" "players s sid = None" "sid \<noteq> []"
  shows "state_ok (snd (create_player R sid s))"
proof -
  let ?s1 = "snd (create_player R sid s)"
  note cf = create_player_fields [where R = R and sid = sid and s = s]
  note ok = state_okD [OF assms(1)]
  have lt: "\<And>i. i \<in> set (world s) \<Longrightarrow> i < nextId s"
    by (rule ok(3))
  have old: "\<And>i. i \<in> set (world s) \<Longrightarrow> bodies ?s1 i = bodies s i"
  proof -
    fix i assume "i \<in> set (world s)"
    then have "i \<noteq> nextId s"
      using lt [of i] by simp
    then show "bodies ?s1 i = bodies s i"
      by (simp add: create_player_fields)
  qed
  have sb: "set (scoreBalls s) \<subseteq> set (world s)"
    by (rule ok(8))
  have "nextId s \<notin> set (world s)"
    using lt [of "nextId s"] by auto
  then have a1: "distinct (world ?s1)" "distinct (scoreBalls ?s1)"
    using ok(1,2) by (simp_all add: cf)
  have a3: "\<forall>i\<in>set (world ?s1). i < nextId ?s1"
    using lt by (auto simp add: cf less_Suc_eq)
  have a4: "[] \<notin> dom (players ?s1)"
    using ok(4) assms(3) by (simp add: cf domIff)
  have a5: "\<forall>i\<in>set (world ?s1). label (bodies ?s1 i) = PlayerBall \<longrightarrow>
        (\<exists>k p. playerId (bodies ?s1 i) = Some k \<and> players ?s1 k = Some p \<and> body p = i)"
  proof (intro ballI impI)
    fix i assume i: "i \<in> set (world ?s1)" and l: "label (bodies ?s1 i) = PlayerBall"
    show "\<exists>k p. playerId (bodies ?s1 i) = Some k \<and> players ?s1 k = Some p \<and> body p = i"
    proof (cases "i = nextId s")
      case True
      then show ?thesis by (simp add: cf)
    next
      case False
      then have iw: "i \<in> set (world s)"
        using i by (simp add: cf)
      have "label (bodies s i) = PlayerBall"
        using l old [OF iw] by simp
      then obtain k p where kp: "playerId (bodies s i) = Some k" "players s k = Some p" "body p = i"
        using ok(5) [OF iw] by blast
      then have "k \<noteq> sid"
        using assms(2) by auto
      then show ?thesis
        using kp old [OF iw] by (simp add: cf)
    qed
  qed
  have a6: "\<forall>k p. players ?s1 k = Some p \<longrightarrow>
        body p \<in> set (world ?s1) \<and> label (bodies ?s1 (body p)) = PlayerBall
        \<and> playerId (bodies ?s1 (body p)) = Some k"
  proof (intro allI impI)
    fix k p assume p: "players ?s1 k = Some p"
    show "body p \<in> set (world ?s1) \<and> label (bodies ?s1 (body p)) = PlayerBall
        \<and> playerId (bodies ?s1 (body p)) = Some k"
    proof (cases "k = sid")
      case True
      then show ?thesis using p by (auto simp add: cf)
    next
      case False
      then have "players s k = Some p"
        using p by (simp add: cf)
      then have "body p \<in> set (world s) \<and> label (bodies s (body p)) = PlayerBall
        \<and> playerId (bodies s (body p)) = Some k"
        by (rule ok(6))
      then show ?thesis
        using old [of "body p"] by (simp add: cf)
    qed
  qed
  have a7: "\<forall>i\<in>set (world ?s1). (label (bodies ?s1 i) = ScoreBall) = (i \<in> set (scoreBalls ?s1))"
  proof
    fix i assume i: "i \<in> set (world ?s1)"
    show "(label (bodies ?s1 i) = ScoreBall) = (i \<in> set (scoreBalls ?s1))"
    proof (cases "i = nextId s")
      case True
      then have "i \<notin> set (scoreBalls s)"
        using sb lt by auto
      then show ?thesis
        using True by (simp add: cf)
    next
      case False
      then have iw: "i \<in> set (world s)"
        using i by (simp add: cf)
      then show ?thesis
        using ok(7) [OF iw] old [OF iw] by (simp add: cf)
    qed
  qed
  have a8: "set (scoreBalls ?s1) \<subseteq> set (world ?s1)"
    using sb by (auto simp add: cf)
  have bw: "\<forall>i. blackBall s = Some i \<longrightarrow> i \<in> set (world s)"
    using ok(10) by blast
  have a9: "\<forall>i\<in>set (world ?s1). (label (bodies ?s1 i) = BlackBall) = (blackBall ?s1 = Some i)"
  proof
    fix i assume i: "i \<in> set (world ?s1)"
    show "(label (bodies ?s1 i) = BlackBall) = (blackBall ?s1 = Some i)"
    proof (cases "i = nextId s")
      case True
      then have "blackBall s \<noteq> Some i"
        using bw lt by auto
      then show ?thesis
        using True by (simp add: cf)
    next
      case False
      then have iw: "i \<in> set (world s)"
        using i by (simp add: cf)
      then show ?thesis
        using ok(9) [OF iw] old [OF iw] by (simp add: cf)
    qed
  qed
  have a10: "\<forall>i. blackBall ?s1 = Some i \<longrightarrow> i \<in> set (world ?s1)"
    using bw by (simp add: cf)
  have a11: "gameActive ?s1 \<longrightarrow> blackBall ?s1 \<noteq> None"
    using ok(11) by (simp add: cf)
  show ?thesis
    unfolding state_ok_def using a1 a3 a4 a5 a6 a7 a8 a9 a10 a11 by blast
qed


lemma disconnect_state_ok:
  assumes "state_ok s"
  shows "state_ok (fst (disconnect sid s))"
proof (cases "players s sid")
  case None
  then show ?thesis
    using assms by (simp add: disconnect_def)
next
  case (Some p)
  let ?s' = "fst (disconnect sid s)"
  note ok = state_okD [OF assms]
  have fw: "world ?s' = remove1 (body p) (world s)"
    using Some by (simp add: disconnect_def World_remove_def)
  have f: "players ?s' = (players s)(sid := None)"
    "bodies ?s' = bodies s" "nextId ?s' = nextId s" "scoreBalls ?s' = scoreBalls s"
    "blackBall ?s' = blackBall s" "gameActive ?s' = gameActive s"
    using Some by (simp_all add: disconnect_def World_remove_def)
  have w: "set (world ?s') = set (world s) - {body p}"
    using ok(1) by (simp add: fw)
  have pb: "label (bodies s (body p)) = PlayerBall" "playerId (bodies s (body p)) = Some sid"
    using ok(6) [OF Some] by simp_all
  have a1: "distinct (world ?s')" "distinct (scoreBalls ?s')"
    using ok(1,2) by (simp_all add: fw f)
  have a3: "\<forall>i\<in>set (world ?s'). i < nextId ?s'"
    using ok(3) by (simp add: w f)
  have a4: "[] \<notin> dom (players ?s')"
    using ok(4) by (simp add: f domIff)
  have a5: "\<forall>i\<in>set (world ?s'). label (bodies ?s' i) = PlayerBall \<longrightarrow>
        (\<exists>k q. playerId (bodies ?s' i) = Some k \<and> players ?s' k = Some q \<and> body q = i)"
  proof (intro ballI impI)
    fix i assume i: "i \<in> set (world ?s')" and l: "label (bodies ?s' i) = PlayerBall"
    have iw: "i \<in> set (world s)" "i \<noteq> body p"
      using i by (simp_all add: w)
    obtain k q where kq: "playerId (bodies s i) = Some k" "players s k = Some q" "body q = i"
      using ok(5) [OF iw(1)] l by (auto simp add: f)
    have "k \<noteq> sid"
      using kq iw(2) Some by auto
    then show "\<exists>k q. playerId (bodies ?s' i) = Some k \<and> players ?s' k = Some q \<and> body q = i"
      using kq by (simp add: f)
  qed
  have a6: "\<forall>k q. players ?s' k = Some q \<longrightarrow>
        body q \<in> set (world ?s') \<and> label (bodies ?s' (body q)) = PlayerBall
        \<and> playerId (bodies ?s' (body q)) = Some k"
  proof (intro allI impI)
    fix k q assume "players ?s' k = Some q"
    then have kq: "k \<noteq> sid" "players s k = Some q"
      by (auto simp add: f split: if_splits)
    note b = ok(6) [OF kq(2)]
    have "body q \<noteq> body p"
      using b pb(2) kq(1) by auto
    then show "body q \<in> set (world ?s') \<and> label (bodies ?s' (body q)) = PlayerBall
        \<and> playerId (bodies ?s' (body q)) = Some k"
      using b by (simp add: w f)
  qed
  have a7: "\<forall>i\<in>set (world ?s'). (label (bodies ?s' i) = ScoreBall) = (i \<in> set (scoreBalls ?s'))"
    using ok(7) by (simp add: w f)
  have "body p \<notin> set (scoreBalls s)"
    using ok(7) [of "body p"] ok(6) [OF Some] pb(1) by simp
  then have a8: "set (scoreBalls ?s') \<subseteq> set (world ?s')"
    using ok(8) by (auto simp add: w f)
  have a9: "\<forall>i\<in>set (world ?s'). (label (bodies ?s' i) = BlackBall) = (blackBall ?s' = Some i)"
    using ok(9) by (simp add: w f)
  have "blackBall s \<noteq> Some (body p)"
    using ok(9) [of "body p"] ok(6) [OF Some] pb(1) by simp
  then have a10: "\<forall>i. blackBall ?s' = Some i \<longrightarrow> i \<in> set (world ?s')"
    using ok(10) by (auto simp add: w f)
  have a11: "gameActive ?s' \<longrightarrow> blackBall ?s' \<noteq> None"
    using ok(11) by (simp add: f)
  show ?thesis
    unfolding state_ok_def using a1 a3 a4 a5 a6 a7 a8 a9 a10 a11 by blast
qed

lemma joinGame_state_ok:
  "state_ok s \<Longrightarrow> sid \<noteq> [] \<Longrightarrow> state_ok (fst (joinGame R sid s))"
  by (cases "players s sid")
     (simp_all add: joinGame_def case_prod_beta create_player_state_ok)

lemma autoJoin_state_ok:
  "state_ok s \<Longrightarrow> sid \<noteq> [] \<Longrightarrow> state_ok (fst (autoJoin R sid s))"
  by (cases "players s sid")
     (simp_all add: autoJoin_def create_player_state_ok)

lemma initial_state_ok: "state_ok (initial_state R)"
  unfolding initial_state_def by (rule startGame_state_ok [OF setup_state_ok])

lemma reachable_state_ok: "reachable R s \<Longrightarrow> state_ok s"
proof (induction rule: reachable.induct)
  case loaded
  show ?case by (rule initial_state_ok)
next
  case (started s data s' out)
  then show ?case
    by (cases data) (auto simp add: startGame_handler_def Let_def startGame_state_ok)
next
  case (joined s sid)
  then show ?case by (simp add: joinGame_state_ok)
next
  case (auto_joined s sid)
  then show ?case by (simp add: autoJoin_state_ok)
next
  case (shot s sid sdata now s' out)
  then show ?case using state_ok_same_shape shoot_shape by blast
next
  case (disconnected s sid)
  then show ?case by (simp add: disconnect_state_ok)
next
  case (collided s prs s')
  then show ?case using collisionStart_ok [of s prs R] by auto
next
  case (moved s b)
  have "same_shape s (s\<lparr>bodies := b\<rparr>)"
    using moved.hyps(2) by (simp add: same_shape_def)
  then show ?case using moved.IH state_ok_same_shape by blast
qed

lemma reachable_collisionStart_total:
  assumes "reachable R s" "\<forall>pr\<in>set prs. fst pr \<in> set (world s) \<and> snd pr \<in> set (world s)"
  shows "\<exists>s'. collisionStart R prs s = Inr s'"
  using collisionStart_ok [OF reachable_state_ok [OF assms(1)] assms(2)] by blast

end
